theory Spec2Isabelle
  imports Main
begin

section \<open>Strings\<close>

text \<open>
  A JavaScript string is modelled as a \<^typ>\<open>string\<close>: one \<^typ>\<open>char\<close> per code unit, for
  the code units below 256 (the ISO-8859-1 range). On that range \<open>toLowerCase\<close> maps
  \<open>A\<close>..\<open>Z\<close> and the accented capitals \<open>0xC0\<close>..\<open>0xDE\<close> (without the multiplication sign
  \<open>0xD7\<close>) to the letter 32 places further, and \<open>trim\<close> strips tab, line feed, vertical
  tab, form feed, carriage return, space and the no-break space \<open>0xA0\<close> from both ends.
\<close>

definition lower_char :: "char \<Rightarrow> char" where
  "lower_char c =
     (let n = (of_char c :: nat)
      in if (65 \<le> n \<and> n \<le> 90) \<or> (192 \<le> n \<and> n \<le> 222 \<and> n \<noteq> 215)
         then char_of (n + 32) else c)"

definition toLowerCase :: "string \<Rightarrow> string" where
  "toLowerCase s = map lower_char s"

definition is_space :: "char \<Rightarrow> bool" where
  "is_space c = ((of_char c :: nat) \<in> {9, 10, 11, 12, 13, 32, 160})"

definition trim :: "string \<Rightarrow> string" where
  "trim s = rev (dropWhile is_space (rev (dropWhile is_space s)))"

definition startsWith :: "string \<Rightarrow> string \<Rightarrow> bool" where
  "startsWith s p = (take (length p) s = p)"

text \<open>
  \<open>s.split(".")\<close>: the pieces between the dots, in order; a string without a dot (the
  empty string too) is one piece.
\<close>

fun split_dot :: "string \<Rightarrow> string list" where
  "split_dot [] = [[]]"
| "split_dot (c # cs) =
     (if c = CHR ''.'' then [] # split_dot cs
      else (case split_dot cs of p # ps \<Rightarrow> (c # p) # ps | [] \<Rightarrow> [[c]]))"

text \<open>Decimal rendering of a number in a template literal.\<close>

fun string_of_nat :: "nat \<Rightarrow> string" where
  "string_of_nat n =
     (if n < 10 then [char_of (48 + n)]
      else string_of_nat (n div 10) @ [char_of (48 + n mod 10)])"

declare string_of_nat.simps [simp del]

section \<open>Bootstrap registry\<close>

text \<open>
  \<open>BootstrapData.services\<close> is a list of pairs: the TLD labels of an entry and its RDAP
  base URLs. The index \<open>tldToEndpoint\<close> is a \<open>Map<string, string>\<close>; the value stored for
  an entry with no URL at all is \<open>undefined\<close> (\<open>endpoints[0]\<close> of an empty array), which is
  \<open>None\<close> here.
\<close>

type_synonym BootstrapData = "(string list \<times> string list) list"

type_synonym EndpointMap = "string \<rightharpoonup> string option"

text \<open>\<open>endpoints.find((e) => e.startsWith("https://")) || endpoints[0]\<close>\<close>

definition pick_endpoint :: "string list \<Rightarrow> string option" where
  "pick_endpoint endpoints =
     (case find (\<lambda>e. startsWith e ''https://'') endpoints of
        Some e \<Rightarrow> if e \<noteq> [] then Some e
                  else (case endpoints of [] \<Rightarrow> None | e0 # _ \<Rightarrow> Some e0)
      | None \<Rightarrow> (case endpoints of [] \<Rightarrow> None | e0 # _ \<Rightarrow> Some e0))"

text \<open>The inner loop: every label of the entry, lowercased, is set to the one endpoint.\<close>

definition set_tlds :: "string list \<Rightarrow> string option \<Rightarrow> EndpointMap \<Rightarrow> EndpointMap" where
  "set_tlds tlds endpoint m = fold (\<lambda>tld m'. m'(toLowerCase tld \<mapsto> endpoint)) tlds m"

text \<open>The outer loop over \<open>data.services\<close>, from the empty map.\<close>

definition build_index :: "BootstrapData \<Rightarrow> EndpointMap" where
  "build_index services =
     fold (\<lambda>(tlds, endpoints) m. set_tlds tlds (pick_endpoint endpoints) m)
       services Map.empty"

text \<open>
  \<open>loadBootstrap\<close> with its module-level cache \<open>tldToEndpoint\<close> (\<open>null\<close> until the first
  call) as explicit state: the function returns the index and the cache after the call.
\<close>

definition loadBootstrap ::
  "BootstrapData \<Rightarrow> EndpointMap option \<Rightarrow> EndpointMap \<times> EndpointMap option" where
  "loadBootstrap services tldToEndpoint =
     (case tldToEndpoint of
        Some m \<Rightarrow> (m, tldToEndpoint)
      | None \<Rightarrow> (let m = build_index services in (m, Some m)))"

text \<open>
  The cache only ever holds the index of the bundled snapshot: it starts as \<open>null\<close> and
  \<open>loadBootstrap\<close> is its only writer.
\<close>

definition cache_ok :: "BootstrapData \<Rightarrow> EndpointMap option \<Rightarrow> bool" where
  "cache_ok services tldToEndpoint =
     (tldToEndpoint = None \<or> tldToEndpoint = Some (build_index services))"

definition getTld :: "string \<Rightarrow> string option" where
  "getTld domain =
     (let parts = split_dot (toLowerCase domain)
      in if length parts < 2 then None else Some (last parts))"

text \<open>
  \<open>getRdapUrl\<close> of the bootstrap route. \<open>!tld\<close> and \<open>!endpoint\<close> hold for \<open>null\<close>,
  \<open>undefined\<close> and the empty string.
\<close>

definition getRdapUrl ::
  "BootstrapData \<Rightarrow> EndpointMap option \<Rightarrow> string
     \<Rightarrow> (string \<times> string) option \<times> EndpointMap option" where
  "getRdapUrl services cache domain =
     (case getTld domain of
        None \<Rightarrow> (None, cache)
      | Some tld \<Rightarrow>
          if tld = [] then (None, cache)
          else
            (let (endpoints, cache') = loadBootstrap services cache
             in case endpoints tld of
                  None \<Rightarrow> (None, cache')
                | Some None \<Rightarrow> (None, cache')
                | Some (Some endpoint) \<Rightarrow>
                    if endpoint = [] then (None, cache')
                    else (Some (endpoint @ ''domain/'' @ domain, endpoint), cache')))"

section \<open>Regular expressions\<close>

text \<open>
  The handlers validate the domain with a regular expression literal. Regular expressions
  are modelled as a datatype with a matcher by derivatives; \<open>regex.test(s)\<close> for a pattern
  anchored by \<open>^\<close> and \<open>$\<close> is a match of the whole string. \<open>Atom cs\<close> is a character
  class, \<open>Opt r\<close> is \<open>(r)?\<close> and \<open>Plus r\<close> is \<open>(r)+\<close>.
\<close>

datatype rexp =
    Zero
  | One
  | Atom "char list"
  | Alt rexp rexp
  | Seq rexp rexp
  | Star rexp

definition Opt :: "rexp \<Rightarrow> rexp" where
  "Opt r = Alt r One"

definition Plus :: "rexp \<Rightarrow> rexp" where
  "Plus r = Seq r (Star r)"

fun nullable :: "rexp \<Rightarrow> bool" where
  "nullable Zero = False"
| "nullable One = True"
| "nullable (Atom cs) = False"
| "nullable (Alt r s) = (nullable r \<or> nullable s)"
| "nullable (Seq r s) = (nullable r \<and> nullable s)"
| "nullable (Star r) = True"

fun deriv :: "char \<Rightarrow> rexp \<Rightarrow> rexp" where
  "deriv c Zero = Zero"
| "deriv c One = Zero"
| "deriv c (Atom cs) = (if c \<in> set cs then One else Zero)"
| "deriv c (Alt r s) = Alt (deriv c r) (deriv c s)"
| "deriv c (Seq r s) =
     (if nullable r then Alt (Seq (deriv c r) s) (deriv c s) else Seq (deriv c r) s)"
| "deriv c (Star r) = Seq (deriv c r) (Star r)"

fun regex_test :: "rexp \<Rightarrow> string \<Rightarrow> bool" where
  "regex_test r [] = nullable r"
| "regex_test r (c # cs) = regex_test (deriv c r) cs"

text \<open>The classes \<open>[a-z0-9]\<close> and \<open>[a-z0-9-]\<close>.\<close>

definition alnum :: "char list" where
  "alnum = ''abcdefghijklmnopqrstuvwxyz0123456789''"

definition alnum_hyphen :: "char list" where
  "alnum_hyphen = ''abcdefghijklmnopqrstuvwxyz0123456789-''"

text \<open>\<open>[a-z0-9]([a-z0-9-]*[a-z0-9])?\<close>\<close>

definition label_rexp :: "rexp" where
  "label_rexp = Seq (Atom alnum) (Opt (Seq (Star (Atom alnum_hyphen)) (Atom alnum)))"

text \<open>\<open>/^[a-z0-9]([a-z0-9-]*[a-z0-9])?(\.[a-z0-9]([a-z0-9-]*[a-z0-9])?)+$/\<close>\<close>

definition domainRegex :: "rexp" where
  "domainRegex = Seq label_rexp (Plus (Seq (Atom ''.'') label_rexp))"

text \<open>
  The label-syntax rule in words: a label is not empty, consists of lowercase letters,
  digits and hyphens, and begins and ends with a letter or digit; a domain has at least
  two labels, separated by dots, and every label is well-formed.
\<close>

definition label_ok :: "string \<Rightarrow> bool" where
  "label_ok l = (l \<noteq> [] \<and> set l \<subseteq> set alnum_hyphen \<and> hd l \<in> set alnum \<and> last l \<in> set alnum)"

definition label_syntax :: "string \<Rightarrow> bool" where
  "label_syntax d = (2 \<le> length (split_dot d) \<and> (\<forall>l \<in> set (split_dot d). label_ok l))"

text \<open>The labels written one after the other, a dot before each.\<close>

definition dotted :: "string list \<Rightarrow> string" where
  "dotted ls = concat (map ((#) CHR ''.'') ls)"

section \<open>The RDAP object\<close>

text \<open>
  The interfaces of the route files, an optional field as an \<open>option\<close>. A vCard entry is
  the 4-tuple \<open>[name, parameters, type, value]\<close>, its value a string or a list of strings;
  \<open>vcardArray\<close> is the pair of the tag \<open>"vcard"\<close> and the entries.
\<close>

datatype json =
    JNull
  | JBool bool
  | JNum int
  | JStr string
  | JArr "json list"
  | JObj "(string \<times> json) list"

datatype VcardValue = VString string | VStrings "string list"

type_synonym VcardEntry = "string \<times> (string \<times> json) list \<times> string \<times> VcardValue"

record RdapPublicId =
  pid_type :: string
  pid_identifier :: string

record RdapEntity =
  roles :: "string list option"
  publicIds :: "RdapPublicId list option"
  vcardArray :: "(string \<times> VcardEntry list) option"

record RdapEvent =
  eventAction :: string
  eventDate :: string

record IpAddresses =
  v4 :: "string list option"
  v6 :: "string list option"

record RdapNameserver =
  ns_ldhName :: string
  objectClassName :: string
  ipAddresses :: "IpAddresses option"

record DsData =
  keyTag :: int
  algorithm :: int
  digestType :: int
  digest :: string

record SecureDNS =
  delegationSigned :: "bool option"
  dsData :: "DsData list option"

record RdapLink =
  link_rel :: string
  link_href :: string
  link_type :: "string option"

record RdapResponse =
  ldhName :: string
  handle :: "string option"
  status :: "string list option"
  events :: "RdapEvent list option"
  nameservers :: "RdapNameserver list option"
  entities :: "RdapEntity list option"
  secureDNS :: "SecureDNS option"
  links :: "RdapLink list option"

section \<open>Registrar extraction\<close>

text \<open>\<open>(e) => e.roles?.includes("registrar")\<close>\<close>

definition is_registrar :: "RdapEntity \<Rightarrow> bool" where
  "is_registrar e = (case roles e of None \<Rightarrow> False | Some rs \<Rightarrow> ''registrar'' \<in> set rs)"

definition extractRegistrar :: "RdapEntity list option \<Rightarrow> string option" where
  "extractRegistrar entities_opt =
     (case entities_opt of
        None \<Rightarrow> None
      | Some ents \<Rightarrow>
          (case find is_registrar ents of
             None \<Rightarrow> None
           | Some registrarEntity \<Rightarrow>
               (case vcardArray registrarEntity of
                  None \<Rightarrow> None
                | Some (tag, vcard) \<Rightarrow>
                    (case find (\<lambda>(n, ps, t, v). n = ''fn'') vcard of
                       None \<Rightarrow> None
                     | Some (n, ps, t, VString s) \<Rightarrow> Some s
                     | Some (n, ps, t, VStrings ss) \<Rightarrow> None))))"

text \<open>
  \<open>ianaId?.identifier || null\<close>: an identifier that is the empty string is falsy and
  gives \<open>null\<close>.
\<close>

definition extractIanaId :: "RdapEntity list option \<Rightarrow> string option" where
  "extractIanaId entities_opt =
     (case entities_opt of
        None \<Rightarrow> None
      | Some ents \<Rightarrow>
          (case find is_registrar ents of
             None \<Rightarrow> None
           | Some registrarEntity \<Rightarrow>
               (case publicIds registrarEntity of
                  None \<Rightarrow> None
                | Some ids \<Rightarrow>
                    (case find (\<lambda>i. pid_type i = ''IANA Registrar ID'') ids of
                       None \<Rightarrow> None
                     | Some ianaId \<Rightarrow>
                         if pid_identifier ianaId = [] then None
                         else Some (pid_identifier ianaId)))))"

section \<open>The result of a lookup\<close>

text \<open>
  The object literal \<open>result\<close> of the handlers. Both routes build the same fields; the
  bootstrap route adds \<open>rdapServer\<close>, and its \<open>nameservers\<close> are objects where the
  Verisign route has strings. \<open>success: true\<close> is the constructor \<open>Success\<close> below.
\<close>

record Events =
  registration :: "string option"
  expiration :: "string option"
  lastChanged :: "string option"
  lastUpdateOfRdapDatabase :: "string option"

record NameserverOut =
  name :: string
  ipv4 :: "string list"
  ipv6 :: "string list"

record Dnssec =
  delegationSigned_out :: bool
  dsData_out :: "DsData list"

record 'ns Result =
  domain_out :: string
  handle_out :: "string option"
  status_out :: "string list"
  queryTime :: int
  events_out :: Events
  nameservers_out :: "'ns list"
  registrar :: "string option"
  ianaId :: "string option"
  dnssec :: Dnssec
  rawResponse :: RdapResponse

record BootstrapResult = "NameserverOut Result" +
  rdapServer :: string

text \<open>
  The body given to \<open>Response.json\<close>: \<open>{success: false, error, queryTime?}\<close> or the
  result with \<open>success: true\<close>; and the response with its HTTP status (200 when the
  handler passes no \<open>status\<close>).
\<close>

datatype 'r Body =
    Failure (error: string) (failure_queryTime: "int option")
  | Success 'r

datatype 'r Response = Response (http_status: nat) (body: "'r Body")

section \<open>Normalization\<close>

text \<open>
  \<open>formatDate\<close> is \<open>new Date(s).toLocaleDateString("en-US", ...)\<close>, a function of the
  platform from strings to strings (an invalid date gives the string \<open>Invalid Date\<close>); it
  is a parameter of the model.
\<close>

text \<open>The loop over \<open>data.events\<close> with its \<open>switch\<close> on \<open>event.eventAction\<close>.\<close>

fun extract_events :: "(string \<Rightarrow> string) \<Rightarrow> RdapEvent list \<Rightarrow> Events \<Rightarrow> Events" where
  "extract_events fmt [] ev = ev"
| "extract_events fmt (event # rest) ev =
     extract_events fmt rest
       (if eventAction event = ''registration''
          then ev\<lparr>registration := Some (fmt (eventDate event))\<rparr>
        else if eventAction event = ''expiration''
          then ev\<lparr>expiration := Some (fmt (eventDate event))\<rparr>
        else if eventAction event = ''last changed''
          then ev\<lparr>lastChanged := Some (fmt (eventDate event))\<rparr>
        else if eventAction event = ''last update of RDAP database''
          then ev\<lparr>lastUpdateOfRdapDatabase := Some (fmt (eventDate event))\<rparr>
        else ev)"

definition no_events :: Events where
  "no_events = \<lparr>registration = None, expiration = None, lastChanged = None,
                 lastUpdateOfRdapDatabase = None\<rparr>"

text \<open>\<open>if (data.events) { for (const event of data.events) ... }\<close> on the initial slots.\<close>

definition events_of :: "(string \<Rightarrow> string) \<Rightarrow> RdapResponse \<Rightarrow> Events" where
  "events_of fmt data =
     (case events data of
        None \<Rightarrow> no_events
      | Some evs \<Rightarrow> extract_events fmt evs no_events)"

text \<open>
  The date of a slot in words: the formatted date of the last event of the list, in list
  order, whose action is the slot's; nothing when no event has that action.
\<close>

definition last_event_date :: "(string \<Rightarrow> string) \<Rightarrow> string \<Rightarrow> RdapEvent list \<Rightarrow> string option" where
  "last_event_date fmt action evs =
     (case filter (\<lambda>e. eventAction e = action) evs of
        [] \<Rightarrow> None
      | es \<Rightarrow> Some (fmt (eventDate (last es))))"

text \<open>\<open>data.handle || null\<close>: the empty string is falsy.\<close>

definition handle_of :: "RdapResponse \<Rightarrow> string option" where
  "handle_of data =
     (case handle data of None \<Rightarrow> None | Some h \<Rightarrow> if h = [] then None else Some h)"

text \<open>\<open>data.status || []\<close>\<close>

definition status_of :: "RdapResponse \<Rightarrow> string list" where
  "status_of data = (case status data of None \<Rightarrow> [] | Some st \<Rightarrow> st)"

text \<open>The \<open>dnssec\<close> object: \<open>data.secureDNS?.delegationSigned || false\<close> and
  \<open>data.secureDNS?.dsData || []\<close>.\<close>

definition dnssec_of :: "RdapResponse \<Rightarrow> Dnssec" where
  "dnssec_of data =
     \<lparr>delegationSigned_out =
        (case secureDNS data of
           None \<Rightarrow> False
         | Some sd \<Rightarrow> (case delegationSigned sd of None \<Rightarrow> False | Some b \<Rightarrow> b)),
      dsData_out =
        (case secureDNS data of
           None \<Rightarrow> []
         | Some sd \<Rightarrow> (case dsData sd of None \<Rightarrow> [] | Some ds \<Rightarrow> ds))\<rparr>"

text \<open>Verisign route: \<open>data.nameservers?.map((ns) => ns.ldhName) || []\<close>\<close>

definition nameservers_verisign :: "RdapResponse \<Rightarrow> string list" where
  "nameservers_verisign data =
     (case nameservers data of None \<Rightarrow> [] | Some nss \<Rightarrow> map ns_ldhName nss)"

text \<open>Bootstrap route: each nameserver becomes \<open>{name, ipv4, ipv6}\<close>.\<close>

definition nameserver_out :: "RdapNameserver \<Rightarrow> NameserverOut" where
  "nameserver_out ns =
     \<lparr>name = ns_ldhName ns,
      ipv4 = (case ipAddresses ns of
                None \<Rightarrow> []
              | Some ip \<Rightarrow> (case v4 ip of None \<Rightarrow> [] | Some a \<Rightarrow> a)),
      ipv6 = (case ipAddresses ns of
                None \<Rightarrow> []
              | Some ip \<Rightarrow> (case v6 ip of None \<Rightarrow> [] | Some a \<Rightarrow> a))\<rparr>"

definition nameservers_bootstrap :: "RdapResponse \<Rightarrow> NameserverOut list" where
  "nameservers_bootstrap data =
     (case nameservers data of None \<Rightarrow> [] | Some nss \<Rightarrow> map nameserver_out nss)"

text \<open>
  The part of \<open>GET\<close> from \<open>const result = {...}\<close> to the end of the events loop, for
  each route: the result built from the parsed body \<open>data\<close>, the measured \<open>queryTime\<close>
  and (bootstrap route) the endpoint.
\<close>

definition normalize_verisign :: "(string \<Rightarrow> string) \<Rightarrow> int \<Rightarrow> RdapResponse \<Rightarrow> string Result" where
  "normalize_verisign fmt qt data =
     \<lparr>domain_out = ldhName data,
      handle_out = handle_of data,
      status_out = status_of data,
      queryTime = qt,
      events_out = events_of fmt data,
      nameservers_out = nameservers_verisign data,
      registrar = extractRegistrar (entities data),
      ianaId = extractIanaId (entities data),
      dnssec = dnssec_of data,
      rawResponse = data\<rparr>"

definition normalize_bootstrap ::
  "(string \<Rightarrow> string) \<Rightarrow> int \<Rightarrow> string \<Rightarrow> RdapResponse \<Rightarrow> BootstrapResult" where
  "normalize_bootstrap fmt qt rdapEndpoint data =
     \<lparr>domain_out = ldhName data,
      handle_out = handle_of data,
      status_out = status_of data,
      queryTime = qt,
      events_out = events_of fmt data,
      nameservers_out = nameservers_bootstrap data,
      registrar = extractRegistrar (entities data),
      ianaId = extractIanaId (entities data),
      dnssec = dnssec_of data,
      rawResponse = data,
      rdapServer = rdapEndpoint\<rparr>"

text \<open>
  \<open>Response.json\<close> serialises the result; the \<open>nameservers\<close> field of the Verisign route
  becomes an array of strings, that of the bootstrap route an array of objects.
\<close>

definition nameservers_json_verisign :: "string list \<Rightarrow> json" where
  "nameservers_json_verisign nss = JArr (map JStr nss)"

definition nameservers_json_bootstrap :: "NameserverOut list \<Rightarrow> json" where
  "nameservers_json_bootstrap nss =
     JArr (map (\<lambda>ns. JObj [(''name'', JStr (name ns)),
                             (''ipv4'', JArr (map JStr (ipv4 ns))),
                             (''ipv6'', JArr (map JStr (ipv6 ns)))]) nss)"

section \<open>The handlers\<close>

text \<open>
  What the platform does for one request: \<open>fetch(url)\<close> rejects with a thrown value, or
  resolves to a response with a status; \<open>response.json()\<close> (only called on a 2xx
  response) rejects, or resolves to the parsed object. A thrown value is an \<open>Error\<close> with
  its message, or something else. The two rounded readings of the clock, after the
  response and in the \<open>catch\<close> block, are given too.

  \<open>JsonOk\<close> stands for a body that parses to an object of the \<open>RdapResponse\<close> shape
  (every optional field missing or of its declared type). The handlers do not validate
  the parsed value, and the \<open>RdapResponse\<close> annotation is gone at run time: a body that
  parses to some other JSON value (\<open>null\<close>, a number, an object with an entity that is
  \<open>null\<close>) is not one of the outcomes below, and nothing is stated about it here. On
  such a value the construction of the result, which runs inside the \<open>try\<close>, may throw
  into the \<open>catch\<close> block or finish with fields that no \<open>Result\<close> has.
\<close>

datatype Thrown = ErrorObject string | OtherValue

datatype JsonResult = JsonThrows Thrown | JsonOk RdapResponse

datatype FetchResult = FetchThrows Thrown | FetchResponse nat JsonResult

record Env =
  fetch :: "string \<Rightarrow> FetchResult"
  elapsed_response :: int
  elapsed_catch :: int
  formatDate :: "string \<Rightarrow> string"

text \<open>\<open>error instanceof Error ? error.message : "RDAP lookup failed"\<close>\<close>

definition catch_message :: "Thrown \<Rightarrow> string" where
  "catch_message t = (case t of ErrorObject m \<Rightarrow> m | OtherValue \<Rightarrow> ''RDAP lookup failed'')"

text \<open>\<open>response.ok\<close>\<close>

definition ok :: "nat \<Rightarrow> bool" where
  "ok st = (200 \<le> st \<and> st \<le> 299)"

text \<open>
  The \<open>try\<close>/\<open>catch\<close> block, the same text in both routes but for the construction of
  the result, which is the parameter \<open>norm\<close>.
\<close>

definition query :: "Env \<Rightarrow> string \<Rightarrow> string \<Rightarrow> (int \<Rightarrow> RdapResponse \<Rightarrow> 'r) \<Rightarrow> 'r Response" where
  \<open>query env domain rdapUrl norm =
     (case fetch env rdapUrl of
        FetchThrows t \<Rightarrow>
          Response 200 (Failure (catch_message t) (Some (elapsed_catch env)))
      | FetchResponse st js \<Rightarrow>
          if st = 404 then
            Response 200
              (Failure (''Domain "'' @ domain @ ''" not found in RDAP registry'')
                 (Some (elapsed_response env)))
          else if \<not> ok st then
            Response 200
              (Failure (''RDAP lookup failed with status '' @ string_of_nat st)
                 (Some (elapsed_response env)))
          else
            (case js of
               JsonThrows t \<Rightarrow>
                 Response 200 (Failure (catch_message t) (Some (elapsed_catch env)))
             | JsonOk data \<Rightarrow>
                 Response 200 (Success (norm (elapsed_response env) data))))\<close>

text \<open>\<open>`${tld}`\<close> in a template literal: \<open>null\<close> is printed as \<open>null\<close>.\<close>

definition tld_text :: "string option \<Rightarrow> string" where
  "tld_text t = (case t of None \<Rightarrow> ''null'' | Some tld \<Rightarrow> tld)"

text \<open>
  \<open>GET\<close> of the bootstrap route. Its input is \<open>url.searchParams.get("domain")\<close> (\<open>None\<close>
  when the parameter is missing) and the cache; it returns the response, the URLs it
  fetched, in order, and the cache.
\<close>

definition GET_bootstrap ::
  "BootstrapData \<Rightarrow> Env \<Rightarrow> EndpointMap option \<Rightarrow> string option
     \<Rightarrow> BootstrapResult Response \<times> string list \<times> EndpointMap option" where
  \<open>GET_bootstrap services env cache param =
     (case map_option (\<lambda>p. toLowerCase (trim p)) param of
        None \<Rightarrow> (Response 400 (Failure ''Domain parameter is required'' None), [], cache)
      | Some domain \<Rightarrow>
          if domain = [] then
            (Response 400 (Failure ''Domain parameter is required'' None), [], cache)
          else if \<not> regex_test domainRegex domain then
            (Response 400 (Failure ''Invalid domain format'' None), [], cache)
          else
            (case getRdapUrl services cache domain of
               (None, cache') \<Rightarrow>
                 (Response 400
                    (Failure (''TLD ".'' @ tld_text (getTld domain) @
                       ''" is not supported. No RDAP endpoint found in IANA bootstrap registry.'')
                       None),
                  [], cache')
             | (Some (rdapUrl, rdapEndpoint), cache') \<Rightarrow>
                 (query env domain rdapUrl
                    (\<lambda>qt data. normalize_bootstrap (formatDate env) qt rdapEndpoint data),
                  [rdapUrl], cache')))\<close>

text \<open>\<open>getRdapUrl\<close> and \<open>GET\<close> of the Verisign route (\<open>routes/api/rdap.ts\<close>).\<close>

definition getRdapUrl_verisign :: "string \<Rightarrow> string option" where
  "getRdapUrl_verisign domain =
     (let tld = getTld domain
      in if tld = Some ''com'' \<or> tld = Some ''net''
         then Some (''https://rdap.verisign.com/'' @ tld_text tld @ ''/v1/domain/'' @ domain)
         else None)"

definition GET_verisign :: "Env \<Rightarrow> string option \<Rightarrow> string Result Response \<times> string list" where
  \<open>GET_verisign env param =
     (case map_option (\<lambda>p. toLowerCase (trim p)) param of
        None \<Rightarrow> (Response 400 (Failure ''Domain parameter is required'' None), [])
      | Some domain \<Rightarrow>
          if domain = [] then
            (Response 400 (Failure ''Domain parameter is required'' None), [])
          else if \<not> regex_test domainRegex domain then
            (Response 400 (Failure ''Invalid domain format'' None), [])
          else
            (case getRdapUrl_verisign domain of
               None \<Rightarrow>
                 (Response 400
                    (Failure (''TLD ".'' @ tld_text (getTld domain) @
                       ''" is not supported. Only .com and .net domains are supported via Verisign RDAP.'')
                       None),
                  [])
             | Some rdapUrl \<Rightarrow>
                 if rdapUrl = [] then
                   (Response 400
                      (Failure (''TLD ".'' @ tld_text (getTld domain) @
                         ''" is not supported. Only .com and .net domains are supported via Verisign RDAP.'')
                         None),
                    [])
                 else
                   (query env domain rdapUrl (\<lambda>qt data. normalize_verisign (formatDate env) qt data),
                    [rdapUrl])))\<close>

text \<open>
  A request is rejected before the outbound call when the \<open>domain\<close> parameter is missing
  or empty after trimming, when the domain fails the format check, or when the route has
  no endpoint for it (\<open>supported\<close> is the route's test for that).
\<close>

definition rejected_before_fetch :: "(string \<Rightarrow> bool) \<Rightarrow> string option \<Rightarrow> bool" where
  "rejected_before_fetch supported param =
     (case map_option (\<lambda>p. toLowerCase (trim p)) param of
        None \<Rightarrow> True
      | Some d \<Rightarrow> d = [] \<or> \<not> regex_test domainRegex d \<or> \<not> supported d)"

section \<open>Sample inputs\<close>

text \<open>
  Sample entities: a technical contact, a registrar with two \<open>fn\<close> entries and three
  public identifiers, and a second registrar.
\<close>

definition ent_tech :: RdapEntity where
  "ent_tech = \<lparr>roles = Some [''technical''], publicIds = None, vcardArray = None\<rparr>"

definition ent_reg :: RdapEntity where
  "ent_reg = \<lparr>roles = Some [''abuse'', ''registrar''],
      publicIds = Some [\<lparr>pid_type = ''Other ID'', pid_identifier = ''7''\<rparr>,
                        \<lparr>pid_type = ''IANA Registrar ID'', pid_identifier = ''292''\<rparr>,
                        \<lparr>pid_type = ''IANA Registrar ID'', pid_identifier = ''1''\<rparr>],
      vcardArray = Some (''vcard'', [(''version'', [], ''text'', VString ''4.0''),
                                      (''fn'', [], ''text'', VString ''Example Registrar''),
                                      (''fn'', [], ''text'', VString ''Other'')])\<rparr>"

definition ent_reg2 :: RdapEntity where
  "ent_reg2 = \<lparr>roles = Some [''registrar''],
      publicIds = Some [\<lparr>pid_type = ''IANA Registrar ID'', pid_identifier = ''9999''\<rparr>],
      vcardArray = Some (''vcard'', [(''fn'', [], ''text'', VString ''Later Registrar'')])\<rparr>"

text \<open>
  Sample inputs: a raw object with every field, one with none of the optional fields, a
  snapshot with one entry, and a platform that answers every fetch with a given outcome,
  measures 42 ms after a response and 43 ms in the \<open>catch\<close> block, and formats a date by
  putting \<open>on\<close> before it.
\<close>

definition raw_example :: RdapResponse where
  "raw_example =
     \<lparr>ldhName = ''EXAMPLE.COM'',
      handle = Some ''2336799_DOMAIN_COM-VRSN'',
      status = Some [''client transfer prohibited'', ''active''],
      events = Some [\<lparr>eventAction = ''expiration'', eventDate = ''2024-08-13T04:00:00Z''\<rparr>,
                     \<lparr>eventAction = ''registration'', eventDate = ''1995-08-14T04:00:00Z''\<rparr>,
                     \<lparr>eventAction = ''transfer'', eventDate = ''2001-01-01T00:00:00Z''\<rparr>,
                     \<lparr>eventAction = ''expiration'', eventDate = ''2025-08-13T04:00:00Z''\<rparr>],
      nameservers = Some [\<lparr>ns_ldhName = ''A.IANA-SERVERS.NET'', objectClassName = ''nameserver'',
                            ipAddresses = Some \<lparr>v4 = Some [''199.43.135.53''], v6 = None\<rparr>\<rparr>,
                          \<lparr>ns_ldhName = ''B.IANA-SERVERS.NET'', objectClassName = ''nameserver'',
                            ipAddresses = None\<rparr>],
      entities = Some [ent_tech, ent_reg, ent_reg2],
      secureDNS = Some \<lparr>delegationSigned = Some True,
                         dsData = Some [\<lparr>keyTag = 370, algorithm = 13, digestType = 2,
                                         digest = ''be74359954660069d5c63d200c39f5603827d7dd''\<rparr>]\<rparr>,
      links = None\<rparr>"

definition raw_minimal :: RdapResponse where
  "raw_minimal =
     \<lparr>ldhName = ''example.com'', handle = None, status = None, events = None,
      nameservers = None, entities = None, secureDNS = None, links = None\<rparr>"

definition services_example :: BootstrapData where
  "services_example = [([''com'', ''net''], [''https://rdap.example-registry.test/''])]"

definition fmt_example :: "string \<Rightarrow> string" where
  "fmt_example s = ''on '' @ s"

definition env_example :: "FetchResult \<Rightarrow> Env" where
  "env_example res =
     \<lparr>fetch = (\<lambda>url. res), elapsed_response = 42, elapsed_catch = 43,
      formatDate = fmt_example\<rparr>"

text \<open>
  A raw object whose optional sub-fields are missing: nameservers without addresses, an
  entity without roles, a registrar without vCard array and public identifiers, a
  \<open>secureDNS\<close> object without fields.
\<close>

definition raw_sparse :: RdapResponse where
  "raw_sparse =
     \<lparr>ldhName = ''example.com'', handle = None, status = None, events = None,
      nameservers = Some [\<lparr>ns_ldhName = ''ns1.example.com'', objectClassName = ''nameserver'',
                            ipAddresses = None\<rparr>,
                          \<lparr>ns_ldhName = ''ns2.example.com'', objectClassName = ''nameserver'',
                            ipAddresses = Some \<lparr>v4 = None, v6 = None\<rparr>\<rparr>],
      entities = Some [\<lparr>roles = None, publicIds = None, vcardArray = None\<rparr>,
                       \<lparr>roles = Some [''registrar''], publicIds = None, vcardArray = None\<rparr>],
      secureDNS = Some \<lparr>delegationSigned = None, dsData = None\<rparr>,
      links = None\<rparr>"

section \<open>Properties of the bootstrap registry\<close>

text \<open>Rules that evaluate the string functions on literals.\<close>

lemmas str_eval = toLowerCase_def lower_char_def trim_def is_space_def startsWith_def
  char_of_def bit_iff_odd

lemma find_filter_conv: "find P xs = (case filter P xs of [] \<Rightarrow> None | x # _ \<Rightarrow> Some x)"
  by (induction xs) auto

lemma https_nonempty: "startsWith e ''https://'' \<Longrightarrow> e \<noteq> []"
  by (auto simp: startsWith_def)

lemma pick_endpoint_filter:
  "pick_endpoint eps =
     (case filter (\<lambda>e. startsWith e ''https://'') eps of
        e # _ \<Rightarrow> Some e
      | [] \<Rightarrow> (case eps of [] \<Rightarrow> None | e0 # _ \<Rightarrow> Some e0))"
proof (cases "filter (\<lambda>e. startsWith e ''https://'') eps")
  case Nil
  then show ?thesis by (simp add: pick_endpoint_def find_filter_conv)
next
  case (Cons e rest)
  then have "e \<in> set (filter (\<lambda>e. startsWith e ''https://'') eps)" by simp
  then have "e \<noteq> []" using https_nonempty by simp
  with Cons show ?thesis by (simp add: pick_endpoint_def find_filter_conv)
qed

lemma set_tlds_apply:
  "set_tlds tlds ep m k = (if k \<in> set (map toLowerCase tlds) then Some ep else m k)"
  unfolding set_tlds_def by (induction tlds arbitrary: m) auto

lemma fold_index:
  "fold (\<lambda>(tlds, endpoints) m. set_tlds tlds (pick_endpoint endpoints) m) services m0 k =
     (case find (\<lambda>(tlds, endpoints). k \<in> set (map toLowerCase tlds)) (rev services) of
        None \<Rightarrow> m0 k
      | Some (tlds, endpoints) \<Rightarrow> Some (pick_endpoint endpoints))"
proof (induction services arbitrary: m0 rule: rev_induct)
  case Nil
  show ?case by simp
next
  case (snoc x xs)
  obtain tlds eps where x: "x = (tlds, eps)" by (cases x)
  let ?f = "\<lambda>(tlds, endpoints) m. set_tlds tlds (pick_endpoint endpoints) m"
  have "fold ?f (xs @ [x]) m0 k = set_tlds tlds (pick_endpoint eps) (fold ?f xs m0) k"
    by (simp add: x)
  also have "\<dots> = (if k \<in> set (map toLowerCase tlds) then Some (pick_endpoint eps) else fold ?f xs m0 k)"
    by (rule set_tlds_apply)
  finally show ?case by (simp add: x snoc)
qed

lemma build_index_find:
  "build_index services k =
     (case find (\<lambda>(tlds, endpoints). k \<in> set (map toLowerCase tlds)) (rev services) of
        None \<Rightarrow> None
      | Some (tlds, endpoints) \<Rightarrow> Some (pick_endpoint endpoints))"
  unfolding build_index_def by (simp add: fold_index)

lemma build_index_snoc:
  "build_index (services @ [(tlds, eps)]) k =
     (if k \<in> set (map toLowerCase tlds) then Some (pick_endpoint eps) else build_index services k)"
  by (simp add: build_index_find)

lemma find_none: "\<forall>x \<in> set xs. \<not> P x \<Longrightarrow> find P xs = None"
  by (induction xs) auto

lemma build_index_absent:
  "\<forall>(tlds, endpoints) \<in> set services. k \<notin> set (map toLowerCase tlds) \<Longrightarrow>
     build_index services k = None"
proof -
  assume a: "\<forall>(tlds, endpoints) \<in> set services. k \<notin> set (map toLowerCase tlds)"
  have "find (\<lambda>(tlds, endpoints). k \<in> set (map toLowerCase tlds)) (rev services) = None"
    by (rule find_none) (use a in auto)
  then show ?thesis by (simp add: build_index_find)
qed

lemma loadBootstrap_ok:
  "cache_ok services cache \<Longrightarrow> loadBootstrap services cache = (build_index services, Some (build_index services))"
  by (auto simp: cache_ok_def loadBootstrap_def Let_def)

text \<open>
  C2: the endpoint chosen for a list of candidates is the first one, in list order, that
  starts with \<open>https://\<close>, and the first of the list when there is none; a list that is
  not empty gives one of its members, and a list with an \<open>https\<close> candidate anywhere gives
  an \<open>https\<close> URL. Resolving a domain whose TLD was last registered by the entry
  \<open>(tlds, eps)\<close> gives the endpoint chosen for \<open>eps\<close>.
\<close>

theorem pick_endpoint_tie_break:
  "pick_endpoint eps =
     (case filter (\<lambda>e. startsWith e ''https://'') eps of
        e # _ \<Rightarrow> Some e
      | [] \<Rightarrow> (case eps of [] \<Rightarrow> None | e0 # _ \<Rightarrow> Some e0))
   \<and> (eps \<noteq> [] \<longrightarrow> (\<exists>u. pick_endpoint eps = Some u \<and> u \<in> set eps))
   \<and> ((\<exists>e \<in> set eps. startsWith e ''https://'') \<longrightarrow>
        (\<exists>u. pick_endpoint eps = Some u \<and> startsWith u ''https://''))
   \<and> (cache_ok services cache \<longrightarrow> getTld d = Some tld \<longrightarrow> tld \<noteq> [] \<longrightarrow>
        find (\<lambda>(tlds, endpoints). tld \<in> set (map toLowerCase tlds)) (rev services) = Some (tlds, eps) \<longrightarrow>
        fst (getRdapUrl services cache d) =
          (case pick_endpoint eps of
             None \<Rightarrow> None
           | Some u \<Rightarrow> if u = [] then None else Some (u @ ''domain/'' @ d, u)))"
proof (intro conjI impI)
  show eq: "pick_endpoint eps =
     (case filter (\<lambda>e. startsWith e ''https://'') eps of
        e # _ \<Rightarrow> Some e
      | [] \<Rightarrow> (case eps of [] \<Rightarrow> None | e0 # _ \<Rightarrow> Some e0))"
    by (rule pick_endpoint_filter)
  show "\<exists>u. pick_endpoint eps = Some u \<and> u \<in> set eps" if "eps \<noteq> []"
  proof (cases "filter (\<lambda>e. startsWith e ''https://'') eps")
    case Nil
    then have "pick_endpoint eps = (case eps of [] \<Rightarrow> None | e0 # _ \<Rightarrow> Some e0)"
      by (simp add: eq)
    with that show ?thesis by (cases eps) simp_all
  next
    case (Cons e rest)
    then have "e \<in> set (filter (\<lambda>e. startsWith e ''https://'') eps)" by simp
    then have "e \<in> set eps" by simp
    with Cons show ?thesis by (simp add: eq)
  qed
  show "\<exists>u. pick_endpoint eps = Some u \<and> startsWith u ''https://''"
    if "\<exists>e \<in> set eps. startsWith e ''https://''"
  proof (cases "filter (\<lambda>e. startsWith e ''https://'') eps")
    case Nil
    with that show ?thesis by (auto simp: filter_empty_conv)
  next
    case (Cons e rest)
    then have "e \<in> set (filter (\<lambda>e. startsWith e ''https://'') eps)" by simp
    then have "startsWith e ''https://''" by simp
    with Cons show ?thesis by (simp add: eq)
  qed
  show "fst (getRdapUrl services cache d) =
          (case pick_endpoint eps of
             None \<Rightarrow> None
           | Some u \<Rightarrow> if u = [] then None else Some (u @ ''domain/'' @ d, u))"
    if "cache_ok services cache" "getTld d = Some tld" "tld \<noteq> []"
       "find (\<lambda>(tlds, endpoints). tld \<in> set (map toLowerCase tlds)) (rev services) = Some (tlds, eps)"
    using that
    by (simp add: getRdapUrl_def loadBootstrap_ok build_index_find split: option.splits)
qed

theorem pick_endpoint_tie_break_witness:
  "pick_endpoint [''http://a.test/'', ''https://b.test/''] = Some ''https://b.test/''
   \<and> fst (getRdapUrl [([''COM'', ''net''], [''http://a.test/'', ''https://b.test/''])] None
          ''example.com'')
       = Some (''https://b.test/domain/example.com'', ''https://b.test/'')"
proof -
  let ?eps = "[''http://a.test/'', ''https://b.test/'']"
  let ?svc = "[([''COM'', ''net''], ?eps)]"
  have h1: "cache_ok ?svc None" by (simp add: cache_ok_def)
  have h2: "getTld ''example.com'' = Some ''com''" by (simp add: getTld_def str_eval)
  have h3: "find (\<lambda>(tlds, endpoints). ''com'' \<in> set (map toLowerCase tlds)) (rev ?svc)
              = Some ([''COM'', ''net''], ?eps)"
    by (simp add: str_eval)
  have h4: "\<exists>e \<in> set ?eps. startsWith e ''https://''" by (simp add: str_eval)
  have h5: "?eps \<noteq> []" by simp
  note t = pick_endpoint_tie_break [of ?eps ?svc None "''example.com''" "''com''" "[''COM'', ''net'']"]
  from t h1 h2 h3 h4 h5 show ?thesis by (simp add: str_eval)
qed

text \<open>
  C8: the index maps a key to the endpoint chosen for the last snapshot entry that has the
  key among its lowercased labels, and to nothing when no entry has it. Entry by entry, in
  document order: after an entry is processed every one of its labels, lowercased, maps
  to the one endpoint chosen for that entry (overwriting what an earlier entry stored),
  and every other key keeps what it had. \<open>loadBootstrap\<close> builds this index on its first
  call and returns the cached index afterwards.
\<close>

theorem build_index_last_write_wins:
  "build_index services k =
     (case find (\<lambda>(tlds, endpoints). k \<in> set (map toLowerCase tlds)) (rev services) of
        None \<Rightarrow> None
      | Some (tlds, endpoints) \<Rightarrow> Some (pick_endpoint endpoints))
   \<and> build_index [] k = None
   \<and> (\<forall>t \<in> set tlds. build_index (services @ [(tlds, eps)]) (toLowerCase t) = Some (pick_endpoint eps))
   \<and> (k \<notin> set (map toLowerCase tlds) \<longrightarrow>
        build_index (services @ [(tlds, eps)]) k = build_index services k)
   \<and> loadBootstrap services None = (build_index services, Some (build_index services))
   \<and> loadBootstrap services (Some m) = (m, Some m)"
proof -
  have "loadBootstrap services None = (build_index services, Some (build_index services))"
    "loadBootstrap services (Some m) = (m, Some m)"
    by (simp_all add: loadBootstrap_def Let_def)
  moreover have "build_index [] k = None" by (simp add: build_index_find)
  ultimately show ?thesis
    using build_index_find [of services k] by (simp add: build_index_snoc)
qed

theorem build_index_last_write_wins_witness:
  "build_index [([''com''], [''https://old.test/'']), ([''COM'', ''Net''], [''https://new.test/''])] ''com''
     = Some (Some ''https://new.test/'')
   \<and> build_index [([''com''], [''https://old.test/'']), ([''COM'', ''Net''], [''https://new.test/''])] ''net''
     = Some (Some ''https://new.test/'')
   \<and> build_index [([''com''], [''https://old.test/'']), ([''COM'', ''Net''], [''https://new.test/''])] ''org''
     = None"
proof -
  let ?old = "([''com''], [''https://old.test/''])"
  let ?tlds = "[''COM'', ''Net'']"
  let ?eps = "[''https://new.test/'']"
  have m: "''COM'' \<in> set ?tlds" "''Net'' \<in> set ?tlds" by simp_all
  have p: "pick_endpoint ?eps = Some ''https://new.test/''"
    by (simp add: pick_endpoint_def str_eval)
  have l: "toLowerCase ''COM'' = ''com''" "toLowerCase ''Net'' = ''net''" by (simp_all add: str_eval)
  have n: "''org'' \<notin> set (map toLowerCase ?tlds)" "''org'' \<notin> set (map toLowerCase [''com''])"
    by (simp_all add: str_eval)
  note t1 = build_index_last_write_wins [of "[?old]" "''com''" ?tlds ?eps]
  note t2 = build_index_last_write_wins [of "[?old]" "''org''" ?tlds ?eps]
  note t3 = build_index_last_write_wins [of "[]" "''org''" "[''com'']" "[''https://old.test/'']"]
  from t1 m p l have a: "build_index [?old, (?tlds, ?eps)] ''com'' = Some (Some ''https://new.test/'')"
    "build_index [?old, (?tlds, ?eps)] ''net'' = Some (Some ''https://new.test/'')"
    by auto
  from t2 t3 n have "build_index [?old, (?tlds, ?eps)] ''org'' = None" by simp
  with a show ?thesis by simp
qed

section \<open>The domain pattern and the label-syntax rule\<close>

lemma test_Zero [simp]: "\<not> regex_test Zero w"
  by (induction w) auto

lemma test_One [simp]: "regex_test One w \<longleftrightarrow> w = []"
  by (cases w) auto

lemma test_Atom: "regex_test (Atom cs) w \<longleftrightarrow> (\<exists>c. w = [c] \<and> c \<in> set cs)"
  by (cases w) auto

lemma test_Alt [simp]: "regex_test (Alt r s) w \<longleftrightarrow> regex_test r w \<or> regex_test s w"
  by (induction w arbitrary: r s) auto

lemma test_Seq: "regex_test (Seq r s) w \<longleftrightarrow> (\<exists>u v. w = u @ v \<and> regex_test r u \<and> regex_test s v)"
proof (induction w arbitrary: r s)
  case Nil
  show ?case by simp
next
  case (Cons c w)
  have "(\<exists>u v. c # w = u @ v \<and> regex_test r u \<and> regex_test s v)
        \<longleftrightarrow> (nullable r \<and> regex_test s (c # w))
            \<or> (\<exists>u v. w = u @ v \<and> regex_test r (c # u) \<and> regex_test s v)"
    (is "?L \<longleftrightarrow> ?R")
  proof
    assume ?L
    then obtain u v where uv: "c # w = u @ v" "regex_test r u" "regex_test s v" by blast
    show ?R
    proof (cases u)
      case Nil
      with uv show ?thesis by simp
    next
      case (Cons a u')
      with uv have "a = c" "w = u' @ v" by simp_all
      with uv Cons show ?thesis by blast
    qed
  next
    assume ?R
    then show ?L
    proof
      assume "nullable r \<and> regex_test s (c # w)"
      then have "c # w = [] @ (c # w) \<and> regex_test r [] \<and> regex_test s (c # w)" by simp
      then show ?L by blast
    next
      assume "\<exists>u v. w = u @ v \<and> regex_test r (c # u) \<and> regex_test s v"
      then obtain u v where "w = u @ v" "regex_test r (c # u)" "regex_test s v" by blast
      then have "c # w = (c # u) @ v \<and> regex_test r (c # u) \<and> regex_test s v" by simp
      then show ?L by blast
    qed
  qed
  moreover have "regex_test (Seq r s) (c # w) \<longleftrightarrow>
      (nullable r \<and> regex_test s (c # w))
        \<or> (\<exists>u v. w = u @ v \<and> regex_test r (c # u) \<and> regex_test s v)"
    by (auto simp: Cons.IH)
  ultimately show ?case by blast
qed

lemma test_Opt: "regex_test (Opt r) w \<longleftrightarrow> w = [] \<or> regex_test r w"
  by (auto simp: Opt_def)

lemma test_Star_Cons:
  "regex_test (Star r) (c # w) \<longleftrightarrow>
     (\<exists>u v. w = u @ v \<and> regex_test r (c # u) \<and> regex_test (Star r) v)"
  by (simp add: test_Seq)

lemma test_Star_Atom: "regex_test (Star (Atom cs)) w \<longleftrightarrow> set w \<subseteq> set cs"
proof (induction w)
  case Nil
  show ?case by simp
next
  case (Cons c w)
  have "regex_test (Star (Atom cs)) (c # w) \<longleftrightarrow> c \<in> set cs \<and> regex_test (Star (Atom cs)) w"
    unfolding test_Star_Cons by (auto simp: test_Atom)
  with Cons show ?case by simp
qed

lemma test_Star_append:
  "regex_test r x \<Longrightarrow> regex_test (Star r) y \<Longrightarrow> regex_test (Star r) (x @ y)"
proof (cases x)
  case Nil
  assume "regex_test (Star r) y"
  with Nil show ?thesis by simp
next
  case (Cons c u)
  assume "regex_test r x" "regex_test (Star r) y"
  with Cons have "u @ y = u @ y \<and> regex_test r (c # u) \<and> regex_test (Star r) y" by simp
  then have "regex_test (Star r) (c # (u @ y))" unfolding test_Star_Cons by blast
  with Cons show ?thesis by simp
qed

lemma test_Star_concat:
  "regex_test (Star r) w \<longleftrightarrow> (\<exists>ws. w = concat ws \<and> (\<forall>x \<in> set ws. regex_test r x))"
proof
  show "\<exists>ws. w = concat ws \<and> (\<forall>x \<in> set ws. regex_test r x)" if "regex_test (Star r) w"
    using that
  proof (induction "length w" arbitrary: w rule: less_induct)
    case less
    show ?case
    proof (cases w)
      case Nil
      then have "w = concat [] \<and> (\<forall>x \<in> set []. regex_test r x)" by simp
      then show ?thesis by blast
    next
      case (Cons c w')
      from less.prems have "regex_test (Star r) (c # w')" unfolding Cons .
      then have "\<exists>u v. w' = u @ v \<and> regex_test r (c # u) \<and> regex_test (Star r) v"
        by (simp only: test_Star_Cons)
      then obtain u v where
        uv: "w' = u @ v" "regex_test r (c # u)" "regex_test (Star r) v"
        by blast
      have "length v < length w" using Cons uv(1) by simp
      from less.hyps [OF this uv(3)] obtain vs where
        vs: "v = concat vs" "\<forall>x \<in> set vs. regex_test r x" by blast
      have "w = concat ((c # u) # vs)" using Cons uv(1) vs(1) by simp
      moreover have "\<forall>x \<in> set ((c # u) # vs). regex_test r x"
        using uv(2) vs(2) by (simp del: regex_test.simps)
      ultimately have "w = concat ((c # u) # vs) \<and> (\<forall>x \<in> set ((c # u) # vs). regex_test r x)"
        by blast
      then show ?thesis by blast
    qed
  qed
next
  assume "\<exists>ws. w = concat ws \<and> (\<forall>x \<in> set ws. regex_test r x)"
  then obtain ws where ws: "w = concat ws" "\<forall>x \<in> set ws. regex_test r x" by blast
  have "regex_test (Star r) (concat ws)" using ws(2)
    by (induction ws) (simp_all add: test_Star_append)
  with ws(1) show "regex_test (Star r) w" by simp
qed

lemma alnum_sub: "set alnum \<subseteq> set alnum_hyphen"
  by (simp add: alnum_def alnum_hyphen_def)

lemma dot_not_label_char: "CHR ''.'' \<notin> set alnum_hyphen"
  by (simp add: alnum_hyphen_def)

lemma label_ok_no_dot: "label_ok l \<Longrightarrow> CHR ''.'' \<notin> set l"
  using dot_not_label_char by (auto simp: label_ok_def)

lemma test_label: "regex_test label_rexp l \<longleftrightarrow> label_ok l"
proof -
  have form: "regex_test label_rexp l \<longleftrightarrow>
      (\<exists>u v. l = u @ v \<and> (\<exists>c. u = [c] \<and> c \<in> set alnum) \<and>
         (v = [] \<or> (\<exists>m t. v = m @ t \<and> set m \<subseteq> set alnum_hyphen
                        \<and> (\<exists>d. t = [d] \<and> d \<in> set alnum))))"
    unfolding label_rexp_def
    by (simp only: test_Seq test_Atom test_Opt test_Star_Atom)
  show ?thesis
  proof
    assume "regex_test label_rexp l"
    then obtain c v where cv: "l = c # v" "c \<in> set alnum"
      "v = [] \<or> (\<exists>m d. v = m @ [d] \<and> set m \<subseteq> set alnum_hyphen \<and> d \<in> set alnum)"
      unfolding form by auto
    from cv(3) show "label_ok l"
    proof
      assume "v = []"
      with cv alnum_sub show ?thesis by (auto simp: label_ok_def)
    next
      assume "\<exists>m d. v = m @ [d] \<and> set m \<subseteq> set alnum_hyphen \<and> d \<in> set alnum"
      then obtain m d where "v = m @ [d]" "set m \<subseteq> set alnum_hyphen" "d \<in> set alnum" by blast
      with cv alnum_sub show ?thesis by (auto simp: label_ok_def)
    qed
  next
    assume r: "label_ok l"
    then obtain c v where l: "l = c # v" by (cases l) (auto simp: label_ok_def)
    with r have c: "c \<in> set alnum" by (simp add: label_ok_def)
    have u: "\<exists>c'. [c] = [c'] \<and> c' \<in> set alnum" using c by simp
    have "v = [] \<or> (\<exists>m t. v = m @ t \<and> set m \<subseteq> set alnum_hyphen
                        \<and> (\<exists>d. t = [d] \<and> d \<in> set alnum))"
    proof (cases "v = []")
      case True
      then show ?thesis by simp
    next
      case False
      then have v: "v = butlast v @ [last v]" by simp
      from r l False have "last v \<in> set alnum" by (simp add: label_ok_def)
      then have t: "\<exists>d. [last v] = [d] \<and> d \<in> set alnum" by simp
      from r l have "set v \<subseteq> set alnum_hyphen" by (simp add: label_ok_def)
      then have "set (butlast v) \<subseteq> set alnum_hyphen" using in_set_butlastD by fastforce
      with v t show ?thesis by blast
    qed
    with u have "l = [c] @ v \<and> (\<exists>c'. [c] = [c'] \<and> c' \<in> set alnum) \<and>
         (v = [] \<or> (\<exists>m t. v = m @ t \<and> set m \<subseteq> set alnum_hyphen
                        \<and> (\<exists>d. t = [d] \<and> d \<in> set alnum)))"
      using l by simp
    then show "regex_test label_rexp l" unfolding form by blast
  qed
qed

lemma split_dot_nonempty: "split_dot d \<noteq> []"
  by (induction d) (auto split: list.splits)

lemma split_dot_no_dot: "CHR ''.'' \<notin> set l \<Longrightarrow> split_dot l = [l]"
  by (induction l) auto

lemma split_dot_append:
  "CHR ''.'' \<notin> set l \<Longrightarrow> split_dot (l @ CHR ''.'' # rest) = l # split_dot rest"
  by (induction l) auto

lemma split_dot_dotted:
  "\<forall>l \<in> set (l0 # ls). CHR ''.'' \<notin> set l \<Longrightarrow> split_dot (l0 @ dotted ls) = l0 # ls"
proof (induction ls arbitrary: l0)
  case Nil
  then show ?case by (simp add: dotted_def split_dot_no_dot)
next
  case (Cons l ls)
  have "dotted (l # ls) = CHR ''.'' # (l @ dotted ls)" by (simp add: dotted_def)
  moreover have "split_dot (l @ dotted ls) = l # ls" using Cons.prems by (intro Cons.IH) simp
  moreover have "CHR ''.'' \<notin> set l0" using Cons.prems by simp
  ultimately show ?case by (simp add: split_dot_append)
qed

lemma split_dot_join: "split_dot d = p # ps \<Longrightarrow> d = p @ dotted ps"
proof (induction d arbitrary: p ps)
  case Nil
  then show ?case by (simp add: dotted_def)
next
  case (Cons c d)
  show ?case
  proof (cases "c = CHR ''.''")
    case True
    with Cons.prems have p: "p = []" "ps = split_dot d" by simp_all
    obtain q qs where q: "split_dot d = q # qs" using split_dot_nonempty by (cases "split_dot d") auto
    from Cons.IH [OF q] have "d = q @ dotted qs" .
    with p q True show ?thesis by (simp add: dotted_def)
  next
    case False
    obtain q qs where q: "split_dot d = q # qs" using split_dot_nonempty by (cases "split_dot d") auto
    with Cons.prems False have "p = c # q" "ps = qs" by simp_all
    with Cons.IH [OF q] show ?thesis by simp
  qed
qed

lemma test_dot_label:
  "regex_test (Seq (Atom ''.'') label_rexp) x \<longleftrightarrow> (\<exists>l. x = CHR ''.'' # l \<and> label_ok l)"
  by (auto simp: test_Seq test_Atom test_label simp del: regex_test.simps)

lemma all_dot_labels:
  "(\<forall>x \<in> set ws. \<exists>l. x = CHR ''.'' # l \<and> label_ok l)
     \<longleftrightarrow> (\<exists>ls. ws = map ((#) CHR ''.'') ls \<and> (\<forall>l \<in> set ls. label_ok l))"
proof
  assume "\<forall>x \<in> set ws. \<exists>l. x = CHR ''.'' # l \<and> label_ok l"
  then have "ws = map ((#) CHR ''.'') (map tl ws) \<and> (\<forall>l \<in> set (map tl ws). label_ok l)"
    by (induction ws) auto
  then show "\<exists>ls. ws = map ((#) CHR ''.'') ls \<and> (\<forall>l \<in> set ls. label_ok l)" by blast
next
  assume "\<exists>ls. ws = map ((#) CHR ''.'') ls \<and> (\<forall>l \<in> set ls. label_ok l)"
  then show "\<forall>x \<in> set ws. \<exists>l. x = CHR ''.'' # l \<and> label_ok l" by auto
qed

lemma test_domainRegex_dotted:
  "regex_test domainRegex d \<longleftrightarrow>
     (\<exists>l0 l1 ls. d = l0 @ dotted (l1 # ls) \<and> (\<forall>l \<in> set (l0 # l1 # ls). label_ok l))"
proof -
  let ?X = "Seq (Atom ''.'') label_rexp"
  have star: "regex_test (Star ?X) y \<longleftrightarrow> (\<exists>ls. y = dotted ls \<and> (\<forall>l \<in> set ls. label_ok l))" for y
    unfolding test_Star_concat test_dot_label all_dot_labels dotted_def by blast
  have plus: "regex_test (Plus ?X) v \<longleftrightarrow>
      (\<exists>l1 ls. v = dotted (l1 # ls) \<and> (\<forall>l \<in> set (l1 # ls). label_ok l))" for v
  proof -
    have "regex_test (Plus ?X) v \<longleftrightarrow>
        (\<exists>x y. v = x @ y \<and> (\<exists>l. x = CHR ''.'' # l \<and> label_ok l)
           \<and> (\<exists>ls. y = dotted ls \<and> (\<forall>l \<in> set ls. label_ok l)))"
      unfolding Plus_def by (simp only: test_Seq [of ?X] test_dot_label star)
    also have "\<dots> \<longleftrightarrow> (\<exists>l1 ls. v = dotted (l1 # ls) \<and> (\<forall>l \<in> set (l1 # ls). label_ok l))"
      (is "?L \<longleftrightarrow> ?R")
    proof
      assume ?L
      then obtain l ls where "v = (CHR ''.'' # l) @ dotted ls" "label_ok l" "\<forall>x \<in> set ls. label_ok x"
        by blast
      then have "v = dotted (l # ls) \<and> (\<forall>x \<in> set (l # ls). label_ok x)" by (simp add: dotted_def)
      then show ?R by blast
    next
      assume ?R
      then obtain l1 ls where "v = dotted (l1 # ls)" "\<forall>l \<in> set (l1 # ls). label_ok l" by blast
      then have "v = (CHR ''.'' # l1) @ dotted ls \<and> (\<exists>l. CHR ''.'' # l1 = CHR ''.'' # l \<and> label_ok l)
          \<and> (\<exists>ls'. dotted ls = dotted ls' \<and> (\<forall>l \<in> set ls'. label_ok l))"
        by (auto simp: dotted_def)
      then show ?L by blast
    qed
    finally show ?thesis .
  qed
  have "regex_test domainRegex d \<longleftrightarrow>
      (\<exists>u v. d = u @ v \<and> label_ok u
         \<and> (\<exists>l1 ls. v = dotted (l1 # ls) \<and> (\<forall>l \<in> set (l1 # ls). label_ok l)))"
    unfolding domainRegex_def by (simp only: test_Seq [of label_rexp] test_label plus)
  also have "\<dots> \<longleftrightarrow>
      (\<exists>l0 l1 ls. d = l0 @ dotted (l1 # ls) \<and> (\<forall>l \<in> set (l0 # l1 # ls). label_ok l))"
    by auto
  finally show ?thesis .
qed

lemma domainRegex_label_syntax: "regex_test domainRegex d \<longleftrightarrow> label_syntax d"
proof
  assume "regex_test domainRegex d"
  then obtain l0 l1 ls where d: "d = l0 @ dotted (l1 # ls)"
    and ok: "\<forall>l \<in> set (l0 # l1 # ls). label_ok l"
    unfolding test_domainRegex_dotted by blast
  from ok have "\<forall>l \<in> set (l0 # l1 # ls). CHR ''.'' \<notin> set l" using label_ok_no_dot by blast
  then have "split_dot d = l0 # l1 # ls" unfolding d by (rule split_dot_dotted)
  with ok show "label_syntax d" by (simp add: label_syntax_def)
next
  assume s: "label_syntax d"
  then obtain l0 l1 ls where sp: "split_dot d = l0 # l1 # ls"
    by (cases "split_dot d" rule: list.exhaust; cases "tl (split_dot d)")
       (auto simp: label_syntax_def)
  from split_dot_join [OF sp] have "d = l0 @ dotted (l1 # ls)" .
  moreover from s sp have "\<forall>l \<in> set (l0 # l1 # ls). label_ok l" by (simp add: label_syntax_def)
  ultimately show "regex_test domainRegex d" unfolding test_domainRegex_dotted by blast
qed

lemma lower_char_label: "\<forall>c \<in> set alnum_hyphen. lower_char c = c"
  by (simp add: alnum_hyphen_def lower_char_def)

lemma lower_char_dot: "lower_char CHR ''.'' = CHR ''.''"
  by (simp add: lower_char_def)

lemma set_dotted: "set (dotted ps) \<subseteq> \<Union> (set ` set ps) \<union> {CHR ''.''}"
  by (auto simp: dotted_def)

lemma set_split_dot: "set d \<subseteq> \<Union> (set ` set (split_dot d)) \<union> {CHR ''.''}"
proof -
  obtain p ps where sp: "split_dot d = p # ps"
    using split_dot_nonempty by (cases "split_dot d") auto
  from split_dot_join [OF sp] have "set d = set p \<union> set (dotted ps)" by (metis set_append)
  with set_dotted [of ps] show ?thesis unfolding sp by auto
qed

lemma label_syntax_lower:
  assumes "label_syntax d"
  shows "toLowerCase d = d"
proof -
  have "lower_char c = c" if "c \<in> set d" for c
  proof -
    from that set_split_dot have "c = CHR ''.'' \<or> (\<exists>l \<in> set (split_dot d). c \<in> set l)" by auto
    then show ?thesis
    proof
      assume "c = CHR ''.''"
      then show ?thesis by (simp add: lower_char_dot)
    next
      assume "\<exists>l \<in> set (split_dot d). c \<in> set l"
      then obtain l where "l \<in> set (split_dot d)" "c \<in> set l" by blast
      with assms have "c \<in> set alnum_hyphen" by (auto simp: label_syntax_def label_ok_def)
      with lower_char_label show ?thesis by blast
    qed
  qed
  then show ?thesis unfolding toLowerCase_def by (simp add: map_idI)
qed

lemma label_syntax_tld:
  assumes "label_syntax d"
  shows "getTld d = Some (last (split_dot d))" and "last (split_dot d) \<noteq> []" and "d \<noteq> []"
proof -
  from assms have len: "2 \<le> length (split_dot d)" by (simp add: label_syntax_def)
  then show "getTld d = Some (last (split_dot d))"
    by (simp add: getTld_def label_syntax_lower [OF assms])
  from len have "split_dot d \<noteq> []" by auto
  then have "last (split_dot d) \<in> set (split_dot d)" by simp
  with assms show "last (split_dot d) \<noteq> []" by (auto simp: label_syntax_def label_ok_def)
  from len show "d \<noteq> []" by auto
qed

section \<open>Lifecycle events\<close>

lemma extract_events_registration:
  "registration (extract_events fmt evs ev) =
     (case last_event_date fmt ''registration'' evs of None \<Rightarrow> registration ev | Some d \<Rightarrow> Some d)"
  by (induction evs arbitrary: ev) (auto simp: last_event_date_def split: list.splits)

lemma extract_events_expiration:
  "expiration (extract_events fmt evs ev) =
     (case last_event_date fmt ''expiration'' evs of None \<Rightarrow> expiration ev | Some d \<Rightarrow> Some d)"
  by (induction evs arbitrary: ev) (auto simp: last_event_date_def split: list.splits)

lemma extract_events_lastChanged:
  "lastChanged (extract_events fmt evs ev) =
     (case last_event_date fmt ''last changed'' evs of None \<Rightarrow> lastChanged ev | Some d \<Rightarrow> Some d)"
  by (induction evs arbitrary: ev) (auto simp: last_event_date_def split: list.splits)

lemma extract_events_lastUpdate:
  "lastUpdateOfRdapDatabase (extract_events fmt evs ev) =
     (case last_event_date fmt ''last update of RDAP database'' evs of
        None \<Rightarrow> lastUpdateOfRdapDatabase ev | Some d \<Rightarrow> Some d)"
  by (induction evs arbitrary: ev) (auto simp: last_event_date_def split: list.splits)

lemma extract_events_slots:
  "extract_events fmt evs no_events =
     \<lparr>registration = last_event_date fmt ''registration'' evs,
      expiration = last_event_date fmt ''expiration'' evs,
      lastChanged = last_event_date fmt ''last changed'' evs,
      lastUpdateOfRdapDatabase = last_event_date fmt ''last update of RDAP database'' evs\<rparr>"
  by (rule Events.equality)
     (simp_all add: extract_events_registration extract_events_expiration
        extract_events_lastChanged extract_events_lastUpdate no_events_def split: option.splits)

text \<open>
  C3: each of the four date slots of the result holds the formatted date of the last event
  of the raw list, in list order, whose \<open>eventAction\<close> is exactly \<open>registration\<close>,
  \<open>expiration\<close>, \<open>last changed\<close> or \<open>last update of RDAP database\<close>, and nothing when
  there is no such event (or no event list); events with any other action change nothing.
  A raw object with two events, both tagged \<open>expiration\<close>, gets the second one's date.
\<close>

theorem events_last_wins:
  "events_out (normalize_bootstrap fmt qt ep data) =
     (case events data of
        None \<Rightarrow> \<lparr>registration = None, expiration = None, lastChanged = None,
                  lastUpdateOfRdapDatabase = None\<rparr>
      | Some evs \<Rightarrow>
          \<lparr>registration = last_event_date fmt ''registration'' evs,
           expiration = last_event_date fmt ''expiration'' evs,
           lastChanged = last_event_date fmt ''last changed'' evs,
           lastUpdateOfRdapDatabase = last_event_date fmt ''last update of RDAP database'' evs\<rparr>)
   \<and> (events data = Some [e1, e2] \<and> eventAction e1 = ''expiration'' \<and> eventAction e2 = ''expiration''
        \<longrightarrow> expiration (events_out (normalize_bootstrap fmt qt ep data)) = Some (fmt (eventDate e2)))"
proof (intro conjI impI)
  have ev: "events_out (normalize_bootstrap fmt qt ep data) = events_of fmt data"
    by (simp add: normalize_bootstrap_def)
  show "events_out (normalize_bootstrap fmt qt ep data) =
     (case events data of
        None \<Rightarrow> \<lparr>registration = None, expiration = None, lastChanged = None,
                  lastUpdateOfRdapDatabase = None\<rparr>
      | Some evs \<Rightarrow>
          \<lparr>registration = last_event_date fmt ''registration'' evs,
           expiration = last_event_date fmt ''expiration'' evs,
           lastChanged = last_event_date fmt ''last changed'' evs,
           lastUpdateOfRdapDatabase = last_event_date fmt ''last update of RDAP database'' evs\<rparr>)"
  proof (cases "events data")
    case None
    then show ?thesis by (simp add: ev events_of_def no_events_def)
  next
    case (Some evs)
    then show ?thesis by (simp add: ev events_of_def extract_events_slots)
  qed
  assume "events data = Some [e1, e2] \<and> eventAction e1 = ''expiration'' \<and> eventAction e2 = ''expiration''"
  then show "expiration (events_out (normalize_bootstrap fmt qt ep data)) = Some (fmt (eventDate e2))"
    by (simp add: ev events_of_def)
qed

theorem events_last_wins_witness:
  "events_out (normalize_bootstrap fmt_example 42 ''https://rdap.example-registry.test/''
       raw_example)
     = \<lparr>registration = Some ''on 1995-08-14T04:00:00Z'',
        expiration = Some ''on 2025-08-13T04:00:00Z'',
        lastChanged = None, lastUpdateOfRdapDatabase = None\<rparr>
   \<and> expiration (events_out (normalize_bootstrap fmt_example 42
        ''https://rdap.example-registry.test/''
        (raw_minimal\<lparr>events :=
           Some [\<lparr>eventAction = ''expiration'', eventDate = ''2024-08-13T04:00:00Z''\<rparr>,
                 \<lparr>eventAction = ''expiration'', eventDate = ''2025-08-13T04:00:00Z''\<rparr>]\<rparr>)))
     = Some ''on 2025-08-13T04:00:00Z''"
proof -
  let ?e1 = "\<lparr>eventAction = ''expiration'', eventDate = ''2024-08-13T04:00:00Z''\<rparr>"
  let ?e2 = "\<lparr>eventAction = ''expiration'', eventDate = ''2025-08-13T04:00:00Z''\<rparr>"
  let ?two = "raw_minimal\<lparr>events := Some [?e1, ?e2]\<rparr>"
  have h: "events ?two = Some [?e1, ?e2] \<and> eventAction ?e1 = ''expiration''
      \<and> eventAction ?e2 = ''expiration''"
    by simp
  note t1 = events_last_wins [of fmt_example 42 "''https://rdap.example-registry.test/''"
      raw_example ?e1 ?e2, THEN conjunct1]
  note t2 = events_last_wins [of fmt_example 42 "''https://rdap.example-registry.test/''"
      ?two ?e1 ?e2, THEN conjunct2, THEN mp, OF h]
  have "events raw_example = Some
      [\<lparr>eventAction = ''expiration'', eventDate = ''2024-08-13T04:00:00Z''\<rparr>,
       \<lparr>eventAction = ''registration'', eventDate = ''1995-08-14T04:00:00Z''\<rparr>,
       \<lparr>eventAction = ''transfer'', eventDate = ''2001-01-01T00:00:00Z''\<rparr>,
       \<lparr>eventAction = ''expiration'', eventDate = ''2025-08-13T04:00:00Z''\<rparr>]"
    by (simp add: raw_example_def)
  with t1 t2 show ?thesis by (simp add: last_event_date_def fmt_example_def)
qed

section \<open>Registrar name and IANA identifier\<close>

lemma find_first:
  "\<forall>x \<in> set pre. \<not> P x \<Longrightarrow> P e \<Longrightarrow> find P (pre @ e # post) = Some e"
  by (induction pre) auto

lemma first_registrar_entity:
  assumes "\<forall>x \<in> set pre. \<not> is_registrar x" and "is_registrar e"
  shows "extractRegistrar (Some (pre @ e # post)) = extractRegistrar (Some [e])
    \<and> extractIanaId (Some (pre @ e # post)) = extractIanaId (Some [e])
    \<and> (vcardArray e = None \<longrightarrow> extractRegistrar (Some (pre @ e # post)) = None)
    \<and> (\<forall>tag vcard. vcardArray e = Some (tag, vcard) \<and> (\<forall>x \<in> set vcard. fst x \<noteq> ''fn'')
          \<longrightarrow> extractRegistrar (Some (pre @ e # post)) = None)
    \<and> (\<forall>tag vpre ps t v vpost.
          vcardArray e = Some (tag, vpre @ (''fn'', ps, t, v) # vpost)
            \<and> (\<forall>x \<in> set vpre. fst x \<noteq> ''fn'')
          \<longrightarrow> extractRegistrar (Some (pre @ e # post)) =
                (case v of VString s \<Rightarrow> Some s | VStrings ss \<Rightarrow> None))
    \<and> (publicIds e = None \<longrightarrow> extractIanaId (Some (pre @ e # post)) = None)
    \<and> (\<forall>ids. publicIds e = Some ids \<and> (\<forall>x \<in> set ids. pid_type x \<noteq> ''IANA Registrar ID'')
          \<longrightarrow> extractIanaId (Some (pre @ e # post)) = None)
    \<and> (\<forall>ipre i ipost.
          publicIds e = Some (ipre @ i # ipost)
            \<and> (\<forall>x \<in> set ipre. pid_type x \<noteq> ''IANA Registrar ID'')
            \<and> pid_type i = ''IANA Registrar ID''
          \<longrightarrow> extractIanaId (Some (pre @ e # post)) =
                (if pid_identifier i = [] then None else Some (pid_identifier i)))"
proof -
  have f: "find is_registrar (pre @ e # post) = Some e"
    using assms by (rule find_first)
  have f1: "find is_registrar [e] = Some e" using assms(2) by simp
  have r: "extractRegistrar (Some (pre @ e # post)) = extractRegistrar (Some [e])"
    unfolding extractRegistrar_def by (simp only: option.case f f1)
  have i: "extractIanaId (Some (pre @ e # post)) = extractIanaId (Some [e])"
    unfolding extractIanaId_def by (simp only: option.case f f1)
  have r0: "vcardArray e = None \<longrightarrow> extractRegistrar (Some [e]) = None"
    by (simp add: extractRegistrar_def assms(2))
  have r1: "extractRegistrar (Some [e]) = None"
    if "vcardArray e = Some (tag, vcard)" "\<forall>x \<in> set vcard. fst x \<noteq> ''fn''" for tag vcard
  proof -
    have "find (\<lambda>(n, ps, t, v). n = ''fn'') vcard = None"
      by (rule find_none) (use that(2) in auto)
    with that(1) show ?thesis by (simp add: extractRegistrar_def assms(2))
  qed
  have r2: "extractRegistrar (Some [e]) = (case v of VString s \<Rightarrow> Some s | VStrings ss \<Rightarrow> None)"
    if "vcardArray e = Some (tag, vpre @ (''fn'', ps, t, v) # vpost)"
       "\<forall>x \<in> set vpre. fst x \<noteq> ''fn''" for tag vpre ps t v vpost
  proof -
    have "find (\<lambda>(n, ps, t, v). n = ''fn'') (vpre @ (''fn'', ps, t, v) # vpost) = Some (''fn'', ps, t, v)"
      by (rule find_first) (use that(2) in auto)
    with that(1) show ?thesis by (simp add: extractRegistrar_def assms(2) split: VcardValue.splits)
  qed
  have i0: "publicIds e = None \<longrightarrow> extractIanaId (Some [e]) = None"
    by (simp add: extractIanaId_def assms(2))
  have i1: "extractIanaId (Some [e]) = None"
    if "publicIds e = Some ids" "\<forall>x \<in> set ids. pid_type x \<noteq> ''IANA Registrar ID''" for ids
  proof -
    have "find (\<lambda>i. pid_type i = ''IANA Registrar ID'') ids = None"
      by (rule find_none) (use that(2) in auto)
    with that(1) show ?thesis by (simp add: extractIanaId_def assms(2))
  qed
  have i2: "extractIanaId (Some [e]) = (if pid_identifier i = [] then None else Some (pid_identifier i))"
    if "publicIds e = Some (ipre @ i # ipost)"
       "\<forall>x \<in> set ipre. pid_type x \<noteq> ''IANA Registrar ID''"
       "pid_type i = ''IANA Registrar ID''" for ipre i ipost
  proof -
    have "find (\<lambda>i. pid_type i = ''IANA Registrar ID'') (ipre @ i # ipost) = Some i"
      by (rule find_first) (use that(2,3) in auto)
    with that(1) show ?thesis by (simp add: extractIanaId_def assms(2))
  qed
  show ?thesis
    unfolding r i using r0 r1 r2 i0 i1 i2 by blast
qed

text \<open>
  C4 (as amended): when no entity has the role \<open>registrar\<close>, name and identifier are
  absent. Otherwise both come from the first entity with that role, whatever entities
  follow it. The name is the value of the first vCard entry tagged \<open>fn\<close> of that entity
  when that value is a single string, and absent when the entity has no vCard array, no
  \<open>fn\<close> entry, or a list as the value. The identifier is that of the entity's first public
  identifier of type \<open>IANA Registrar ID\<close> when it is not the empty string, and absent when it
  is empty, when the entity has no public identifiers, or none of that type.
\<close>

theorem registrar_from_first_entity:
  "((\<forall>x \<in> set ents. \<not> is_registrar x) \<longrightarrow>
      extractRegistrar (Some ents) = None \<and> extractIanaId (Some ents) = None)
   \<and> ((\<forall>x \<in> set pre. \<not> is_registrar x) \<and> is_registrar e \<longrightarrow>
      extractRegistrar (Some (pre @ e # post)) = extractRegistrar (Some [e])
    \<and> extractIanaId (Some (pre @ e # post)) = extractIanaId (Some [e])
    \<and> (vcardArray e = None \<longrightarrow> extractRegistrar (Some (pre @ e # post)) = None)
    \<and> (\<forall>tag vcard. vcardArray e = Some (tag, vcard) \<and> (\<forall>x \<in> set vcard. fst x \<noteq> ''fn'')
          \<longrightarrow> extractRegistrar (Some (pre @ e # post)) = None)
    \<and> (\<forall>tag vpre ps t v vpost.
          vcardArray e = Some (tag, vpre @ (''fn'', ps, t, v) # vpost)
            \<and> (\<forall>x \<in> set vpre. fst x \<noteq> ''fn'')
          \<longrightarrow> extractRegistrar (Some (pre @ e # post)) =
                (case v of VString s \<Rightarrow> Some s | VStrings ss \<Rightarrow> None))
    \<and> (publicIds e = None \<longrightarrow> extractIanaId (Some (pre @ e # post)) = None)
    \<and> (\<forall>ids. publicIds e = Some ids \<and> (\<forall>x \<in> set ids. pid_type x \<noteq> ''IANA Registrar ID'')
          \<longrightarrow> extractIanaId (Some (pre @ e # post)) = None)
    \<and> (\<forall>ipre i ipost.
          publicIds e = Some (ipre @ i # ipost)
            \<and> (\<forall>x \<in> set ipre. pid_type x \<noteq> ''IANA Registrar ID'')
            \<and> pid_type i = ''IANA Registrar ID''
          \<longrightarrow> extractIanaId (Some (pre @ e # post)) =
                (if pid_identifier i = [] then None else Some (pid_identifier i))))"
    (is "?none \<and> (?first \<longrightarrow> ?rest)")
proof (rule conjI)
  show ?none
  proof (rule impI)
    assume "\<forall>x \<in> set ents. \<not> is_registrar x"
    then have "find is_registrar ents = None" by (rule find_none)
    then show "extractRegistrar (Some ents) = None \<and> extractIanaId (Some ents) = None"
      by (simp add: extractRegistrar_def extractIanaId_def)
  qed
  show "?first \<longrightarrow> ?rest"
  proof (rule impI)
    assume ?first
    then have "\<forall>x \<in> set pre. \<not> is_registrar x" and "is_registrar e" by simp_all
    then show ?rest by (rule first_registrar_entity)
  qed
qed

theorem registrar_from_first_entity_witness:
  "extractRegistrar (Some [ent_tech, ent_reg, ent_reg2]) = Some ''Example Registrar''
   \<and> extractIanaId (Some [ent_tech, ent_reg, ent_reg2]) = Some ''292''
   \<and> extractRegistrar (Some [ent_tech]) = None \<and> extractIanaId (Some [ent_tech]) = None"
proof -
  have h1: "\<forall>x \<in> set [ent_tech]. \<not> is_registrar x" by (simp add: is_registrar_def ent_tech_def)
  have h2: "is_registrar ent_reg" by (simp add: is_registrar_def ent_reg_def)
  have h3: "vcardArray ent_reg =
      Some (''vcard'', [(''version'', [], ''text'', VString ''4.0'')]
                        @ (''fn'', [], ''text'', VString ''Example Registrar'')
                        # [(''fn'', [], ''text'', VString ''Other'')])"
    by (simp add: ent_reg_def)
  have h4: "\<forall>x \<in> set [(''version'', [] :: (string \<times> json) list, ''text'', VString ''4.0'')]. fst x \<noteq> ''fn''"
    by simp
  have h5: "publicIds ent_reg =
      Some ([\<lparr>pid_type = ''Other ID'', pid_identifier = ''7''\<rparr>]
            @ \<lparr>pid_type = ''IANA Registrar ID'', pid_identifier = ''292''\<rparr>
            # [\<lparr>pid_type = ''IANA Registrar ID'', pid_identifier = ''1''\<rparr>])"
    by (simp add: ent_reg_def)
  have h6: "\<forall>x \<in> set [\<lparr>pid_type = ''Other ID'', pid_identifier = ''7''\<rparr>].
              pid_type x \<noteq> ''IANA Registrar ID''"
    by simp
  note t = registrar_from_first_entity [of "[ent_tech]" "[ent_tech]" ent_reg "[ent_reg2]"]
  note none = t [THEN conjunct1, THEN mp, OF h1]
  note rest = t [THEN conjunct2, THEN mp, OF conjI, OF h1 h2]
  note r = rest [THEN conjunct2, THEN conjunct2, THEN conjunct2, THEN conjunct2,
                 THEN conjunct1, rule_format, OF conjI, OF h3 h4]
  note i = rest [THEN conjunct2, THEN conjunct2, THEN conjunct2, THEN conjunct2,
                 THEN conjunct2, THEN conjunct2, THEN conjunct2, rule_format,
                 OF conjI, OF h5 conjI, OF h6]
  have "extractRegistrar (Some [ent_tech, ent_reg, ent_reg2]) = Some ''Example Registrar''"
    using r by simp
  moreover have "extractIanaId (Some [ent_tech, ent_reg, ent_reg2]) = Some ''292''"
    using i by simp
  ultimately show ?thesis using none by simp
qed

text \<open>
  C4 as stated fails for an identifier that is the empty string: the first registrar
  entity has a public identifier of type \<open>IANA Registrar ID\<close>, and the result is absent,
  not that identifier's value.
\<close>

theorem iana_id_empty_counterexample:
  "extractIanaId
     (Some [\<lparr>roles = Some [''registrar''],
             publicIds = Some [\<lparr>pid_type = ''IANA Registrar ID'', pid_identifier = ''''\<rparr>],
             vcardArray = None\<rparr>])
   \<noteq> Some (pid_identifier \<lparr>pid_type = ''IANA Registrar ID'', pid_identifier = ''''\<rparr>)"
  by (simp add: extractIanaId_def is_registrar_def)

section \<open>Normalization of a parsed body\<close>

lemma normalize_bootstrap_fields:
  "status_out (normalize_bootstrap fmt qt ep data) = status_of data"
  "dnssec (normalize_bootstrap fmt qt ep data) = dnssec_of data"
  "nameservers_out (normalize_bootstrap fmt qt ep data) = nameservers_bootstrap data"
  "rawResponse (normalize_bootstrap fmt qt ep data) = data"
  "domain_out (normalize_bootstrap fmt qt ep data) = ldhName data"
  "handle_out (normalize_bootstrap fmt qt ep data) = handle_of data"
  "events_out (normalize_bootstrap fmt qt ep data) = events_of fmt data"
  "registrar (normalize_bootstrap fmt qt ep data) = extractRegistrar (entities data)"
  "ianaId (normalize_bootstrap fmt qt ep data) = extractIanaId (entities data)"
  "queryTime (normalize_bootstrap fmt qt ep data) = qt"
  "rdapServer (normalize_bootstrap fmt qt ep data) = ep"
  by (simp_all add: normalize_bootstrap_def)

lemma normalize_verisign_fields:
  "status_out (normalize_verisign fmt qt data) = status_of data"
  "dnssec (normalize_verisign fmt qt data) = dnssec_of data"
  "nameservers_out (normalize_verisign fmt qt data) = nameservers_verisign data"
  "rawResponse (normalize_verisign fmt qt data) = data"
  "domain_out (normalize_verisign fmt qt data) = ldhName data"
  "handle_out (normalize_verisign fmt qt data) = handle_of data"
  "events_out (normalize_verisign fmt qt data) = events_of fmt data"
  "registrar (normalize_verisign fmt qt data) = extractRegistrar (entities data)"
  "ianaId (normalize_verisign fmt qt data) = extractIanaId (entities data)"
  "queryTime (normalize_verisign fmt qt data) = qt"
  by (simp_all add: normalize_verisign_def)

lemma raw_lists_kept:
  "status_of data = (case status data of None \<Rightarrow> [] | Some st \<Rightarrow> st)"
  "dsData_out (dnssec_of data) =
     (case secureDNS data of
        None \<Rightarrow> []
      | Some sd \<Rightarrow> (case dsData sd of None \<Rightarrow> [] | Some ds \<Rightarrow> ds))"
  "map name (nameservers_bootstrap data) =
     (case nameservers data of None \<Rightarrow> [] | Some nss \<Rightarrow> map ns_ldhName nss)"
  "nameservers_verisign data =
     (case nameservers data of None \<Rightarrow> [] | Some nss \<Rightarrow> map ns_ldhName nss)"
  by (simp_all add: status_of_def dnssec_of_def nameservers_bootstrap_def nameservers_verisign_def
        nameserver_out_def comp_def split: option.splits)

lemma find_registrar_roles_absent:
  "\<forall>e \<in> set ents. roles e = None \<Longrightarrow> find is_registrar ents = None"
  by (rule find_none) (simp add: is_registrar_def)

lemma nameserver_out_defaults:
  "name (nameserver_out ns) = ns_ldhName ns"
  "ipAddresses ns = None \<Longrightarrow> ipv4 (nameserver_out ns) = [] \<and> ipv6 (nameserver_out ns) = []"
  "ipAddresses ns = Some ip \<Longrightarrow> v4 ip = None \<Longrightarrow> ipv4 (nameserver_out ns) = []"
  "ipAddresses ns = Some ip \<Longrightarrow> v6 ip = None \<Longrightarrow> ipv6 (nameserver_out ns) = []"
  by (simp_all add: nameserver_out_def)

lemma ok_not_404: "ok st \<Longrightarrow> st \<noteq> 404"
  by (simp add: ok_def)

lemma query_JsonOk:
  "fetch env url = FetchResponse st (JsonOk data) \<Longrightarrow> ok st \<Longrightarrow>
     query env d url norm = Response 200 (Success (norm (elapsed_response env) data))"
  by (simp add: query_def ok_not_404)

text \<open>
  C5: a parsed body of a 2xx response always gives the success result, never the failure
  of the \<open>catch\<close> block; and in the result every missing field has its absent value: no
  \<open>entities\<close> gives no registrar name and no IANA identifier; no \<open>handle\<close> gives none; no
  \<open>status\<close>, no \<open>nameservers\<close> give empty lists; no \<open>events\<close> gives four empty date slots;
  no \<open>secureDNS\<close>, or one without \<open>delegationSigned\<close> or \<open>dsData\<close>, gives \<open>false\<close> and the
  empty list. Entities without \<open>roles\<close> are passed over; a registrar entity without
  \<open>vcardArray\<close> gives no name, one without \<open>publicIds\<close> no identifier; a nameserver
  without \<open>ipAddresses\<close>, or without \<open>v4\<close> or \<open>v6\<close>, gets empty address lists.
\<close>

theorem normalization_total:
  "(fetch env url = FetchResponse st (JsonOk data) \<and> ok st \<longrightarrow>
      query env d url (\<lambda>qt raw. normalize_bootstrap fmt qt ep raw)
        = Response 200 (Success (normalize_bootstrap fmt (elapsed_response env) ep data)))
   \<and> (entities data = None \<longrightarrow>
        registrar (normalize_bootstrap fmt qt ep data) = None
        \<and> ianaId (normalize_bootstrap fmt qt ep data) = None)
   \<and> (handle data = None \<longrightarrow> handle_out (normalize_bootstrap fmt qt ep data) = None)
   \<and> (status data = None \<longrightarrow> status_out (normalize_bootstrap fmt qt ep data) = [])
   \<and> (events data = None \<longrightarrow>
        events_out (normalize_bootstrap fmt qt ep data) =
          \<lparr>registration = None, expiration = None, lastChanged = None,
           lastUpdateOfRdapDatabase = None\<rparr>)
   \<and> (nameservers data = None \<longrightarrow> nameservers_out (normalize_bootstrap fmt qt ep data) = [])
   \<and> (secureDNS data = None \<longrightarrow>
        dnssec (normalize_bootstrap fmt qt ep data)
          = \<lparr>delegationSigned_out = False, dsData_out = []\<rparr>)
   \<and> (\<forall>sd. secureDNS data = Some sd \<and> delegationSigned sd = None \<longrightarrow>
        \<not> delegationSigned_out (dnssec (normalize_bootstrap fmt qt ep data)))
   \<and> (\<forall>sd. secureDNS data = Some sd \<and> dsData sd = None \<longrightarrow>
        dsData_out (dnssec (normalize_bootstrap fmt qt ep data)) = [])
   \<and> (\<forall>ents. entities data = Some ents \<and> (\<forall>e \<in> set ents. roles e = None) \<longrightarrow>
        registrar (normalize_bootstrap fmt qt ep data) = None
        \<and> ianaId (normalize_bootstrap fmt qt ep data) = None)
   \<and> (\<forall>ents e. entities data = Some ents \<and> find is_registrar ents = Some e
          \<and> vcardArray e = None \<longrightarrow>
        registrar (normalize_bootstrap fmt qt ep data) = None)
   \<and> (\<forall>ents e. entities data = Some ents \<and> find is_registrar ents = Some e
          \<and> publicIds e = None \<longrightarrow>
        ianaId (normalize_bootstrap fmt qt ep data) = None)
   \<and> (\<forall>nss. nameservers data = Some nss \<longrightarrow>
        length (nameservers_out (normalize_bootstrap fmt qt ep data)) = length nss
        \<and> (\<forall>i < length nss.
              name (nameservers_out (normalize_bootstrap fmt qt ep data) ! i) = ns_ldhName (nss ! i)
              \<and> (ipAddresses (nss ! i) = None \<longrightarrow>
                   ipv4 (nameservers_out (normalize_bootstrap fmt qt ep data) ! i) = []
                   \<and> ipv6 (nameservers_out (normalize_bootstrap fmt qt ep data) ! i) = [])
              \<and> (\<forall>ip. ipAddresses (nss ! i) = Some ip \<and> v4 ip = None \<longrightarrow>
                   ipv4 (nameservers_out (normalize_bootstrap fmt qt ep data) ! i) = [])
              \<and> (\<forall>ip. ipAddresses (nss ! i) = Some ip \<and> v6 ip = None \<longrightarrow>
                   ipv6 (nameservers_out (normalize_bootstrap fmt qt ep data) ! i) = [])))"
proof -
  have q: "fetch env url = FetchResponse st (JsonOk data) \<and> ok st \<longrightarrow>
      query env d url (\<lambda>qt raw. normalize_bootstrap fmt qt ep raw)
        = Response 200 (Success (normalize_bootstrap fmt (elapsed_response env) ep data))"
    by (simp add: query_JsonOk)
  have e0: "entities data = None \<longrightarrow>
      extractRegistrar (entities data) = None \<and> extractIanaId (entities data) = None"
    by (simp add: extractRegistrar_def extractIanaId_def)
  have h0: "handle data = None \<longrightarrow> handle_of data = None" by (simp add: handle_of_def)
  have s0: "status data = None \<longrightarrow> status_of data = []" by (simp add: status_of_def)
  have v0: "events data = None \<longrightarrow> events_of fmt data =
      \<lparr>registration = None, expiration = None, lastChanged = None,
       lastUpdateOfRdapDatabase = None\<rparr>"
    by (simp add: events_of_def no_events_def)
  have n0: "nameservers data = None \<longrightarrow> nameservers_bootstrap data = []"
    by (simp add: nameservers_bootstrap_def)
  have d0: "secureDNS data = None \<longrightarrow>
      dnssec_of data = \<lparr>delegationSigned_out = False, dsData_out = []\<rparr>"
    by (simp add: dnssec_of_def)
  have d1: "\<forall>sd. secureDNS data = Some sd \<and> delegationSigned sd = None \<longrightarrow>
      \<not> delegationSigned_out (dnssec_of data)"
    by (simp add: dnssec_of_def)
  have d2: "\<forall>sd. secureDNS data = Some sd \<and> dsData sd = None \<longrightarrow>
      dsData_out (dnssec_of data) = []"
    by (simp add: dnssec_of_def)
  have e1: "\<forall>ents. entities data = Some ents \<and> (\<forall>e \<in> set ents. roles e = None) \<longrightarrow>
      extractRegistrar (entities data) = None \<and> extractIanaId (entities data) = None"
    by (auto simp: extractRegistrar_def extractIanaId_def find_registrar_roles_absent)
  have e2: "\<forall>ents e. entities data = Some ents \<and> find is_registrar ents = Some e
      \<and> vcardArray e = None \<longrightarrow> extractRegistrar (entities data) = None"
    by (auto simp: extractRegistrar_def)
  have e3: "\<forall>ents e. entities data = Some ents \<and> find is_registrar ents = Some e
      \<and> publicIds e = None \<longrightarrow> extractIanaId (entities data) = None"
    by (auto simp: extractIanaId_def)
  have n1: "\<forall>nss. nameservers data = Some nss \<longrightarrow>
      length (nameservers_bootstrap data) = length nss
      \<and> (\<forall>i < length nss.
            name (nameservers_bootstrap data ! i) = ns_ldhName (nss ! i)
            \<and> (ipAddresses (nss ! i) = None \<longrightarrow>
                 ipv4 (nameservers_bootstrap data ! i) = []
                 \<and> ipv6 (nameservers_bootstrap data ! i) = [])
            \<and> (\<forall>ip. ipAddresses (nss ! i) = Some ip \<and> v4 ip = None \<longrightarrow>
                 ipv4 (nameservers_bootstrap data ! i) = [])
            \<and> (\<forall>ip. ipAddresses (nss ! i) = Some ip \<and> v6 ip = None \<longrightarrow>
                 ipv6 (nameservers_bootstrap data ! i) = []))"
    by (auto simp: nameservers_bootstrap_def nameserver_out_defaults)
  show ?thesis
    unfolding normalize_bootstrap_fields
    using q e0 h0 s0 v0 n0 d0 d1 d2 e1 e2 e3 n1 by (intro conjI)
qed

theorem normalization_total_witness:
  "query (env_example (FetchResponse 200 (JsonOk raw_minimal))) ''example.com''
       ''https://rdap.example-registry.test/domain/example.com''
       (\<lambda>qt raw. normalize_bootstrap fmt_example qt ''https://rdap.example-registry.test/'' raw)
     = Response 200 (Success
         \<lparr>domain_out = ''example.com'', handle_out = None, status_out = [], queryTime = 42,
          events_out = \<lparr>registration = None, expiration = None, lastChanged = None,
                         lastUpdateOfRdapDatabase = None\<rparr>,
          nameservers_out = [], registrar = None, ianaId = None,
          dnssec = \<lparr>delegationSigned_out = False, dsData_out = []\<rparr>,
          rawResponse = raw_minimal, rdapServer = ''https://rdap.example-registry.test/''\<rparr>)
   \<and> registrar (normalize_bootstrap fmt_example 42 ''https://rdap.example-registry.test/''
        raw_sparse) = None
   \<and> ianaId (normalize_bootstrap fmt_example 42 ''https://rdap.example-registry.test/''
        raw_sparse) = None
   \<and> dnssec (normalize_bootstrap fmt_example 42 ''https://rdap.example-registry.test/''
        raw_sparse) = \<lparr>delegationSigned_out = False, dsData_out = []\<rparr>
   \<and> nameservers_out (normalize_bootstrap fmt_example 42
        ''https://rdap.example-registry.test/'' raw_sparse)
       = [\<lparr>name = ''ns1.example.com'', ipv4 = [], ipv6 = []\<rparr>,
          \<lparr>name = ''ns2.example.com'', ipv4 = [], ipv6 = []\<rparr>]"
proof -
  let ?fmt = fmt_example
  let ?ep = "''https://rdap.example-registry.test/''"
  let ?url = "''https://rdap.example-registry.test/domain/example.com''"
  let ?env = "env_example (FetchResponse 200 (JsonOk raw_minimal))"
  let ?reg = "\<lparr>roles = Some [''registrar''], publicIds = None, vcardArray = None\<rparr>"
  let ?ents = "[\<lparr>roles = None, publicIds = None, vcardArray = None\<rparr>, ?reg]"
  let ?sd = "\<lparr>delegationSigned = None, dsData = None\<rparr>"
  let ?r = "normalize_bootstrap ?fmt 42 ?ep raw_sparse"
  have h0: "fetch ?env ?url = FetchResponse 200 (JsonOk raw_minimal) \<and> ok 200"
    by (simp add: env_example_def ok_def)
  have m: "entities raw_minimal = None" "handle raw_minimal = None" "status raw_minimal = None"
    "events raw_minimal = None" "nameservers raw_minimal = None" "secureDNS raw_minimal = None"
    by (simp_all add: raw_minimal_def)
  note t = normalization_total [of ?env ?url 200 raw_minimal "''example.com''" ?fmt ?ep 42]
  note q = t [THEN conjunct1, THEN mp, OF h0]
  have e: "elapsed_response ?env = 42" by (simp add: env_example_def)
  note t2 = t [THEN conjunct2]
  note t3 = t2 [THEN conjunct2]
  note t4 = t3 [THEN conjunct2]
  note t5 = t4 [THEN conjunct2]
  note t6 = t5 [THEN conjunct2]
  note t7 = t6 [THEN conjunct2]
  note fields =
    t2 [THEN conjunct1, THEN mp, OF m(1), THEN conjunct1]
    t2 [THEN conjunct1, THEN mp, OF m(1), THEN conjunct2]
    t3 [THEN conjunct1, THEN mp, OF m(2)]
    t4 [THEN conjunct1, THEN mp, OF m(3)]
    t5 [THEN conjunct1, THEN mp, OF m(4)]
    t6 [THEN conjunct1, THEN mp, OF m(5)]
    t7 [THEN conjunct1, THEN mp, OF m(6)]
  have first: "query ?env ''example.com'' ?url (\<lambda>qt raw. normalize_bootstrap ?fmt qt ?ep raw)
     = Response 200 (Success
         \<lparr>domain_out = ''example.com'', handle_out = None, status_out = [], queryTime = 42,
          events_out = \<lparr>registration = None, expiration = None, lastChanged = None,
                         lastUpdateOfRdapDatabase = None\<rparr>,
          nameservers_out = [], registrar = None, ianaId = None,
          dnssec = \<lparr>delegationSigned_out = False, dsData_out = []\<rparr>,
          rawResponse = raw_minimal, rdapServer = ?ep\<rparr>)"
    unfolding q e
    by (rule arg_cong [where f = "\<lambda>r. Response 200 (Success r)"], rule BootstrapResult.equality)
       (simp_all only: fields, simp_all add: normalize_bootstrap_fields raw_minimal_def)
  note s = normalization_total [of ?env ?url 200 raw_sparse "''example.com''" ?fmt ?ep 42]
  have sp: "secureDNS raw_sparse = Some ?sd" "delegationSigned ?sd = None" "dsData ?sd = None"
    "entities raw_sparse = Some ?ents" "find is_registrar ?ents = Some ?reg"
    "vcardArray ?reg = None" "publicIds ?reg = None"
    by (simp_all add: raw_sparse_def is_registrar_def)
  note s8 = s [THEN conjunct2, THEN conjunct2, THEN conjunct2, THEN conjunct2,
               THEN conjunct2, THEN conjunct2, THEN conjunct2]
  note s9 = s8 [THEN conjunct2]
  note s11 = s9 [THEN conjunct2, THEN conjunct2]
  note s12 = s11 [THEN conjunct2]
  note reg =
    s11 [THEN conjunct1, rule_format, OF conjI, OF sp(4) conjI, OF sp(5) sp(6)]
    s12 [THEN conjunct1, rule_format, OF conjI, OF sp(4) conjI, OF sp(5) sp(7)]
  have ds: "\<not> delegationSigned_out (dnssec ?r)" "dsData_out (dnssec ?r) = []"
    using s8 [THEN conjunct1, rule_format, OF conjI, OF sp(1) sp(2)]
      s9 [THEN conjunct1, rule_format, OF conjI, OF sp(1) sp(3)]
    by simp_all
  then have dn: "dnssec ?r = \<lparr>delegationSigned_out = False, dsData_out = []\<rparr>"
    by (intro Dnssec.equality) simp_all
  have ns: "nameservers_out ?r = [\<lparr>name = ''ns1.example.com'', ipv4 = [], ipv6 = []\<rparr>,
          \<lparr>name = ''ns2.example.com'', ipv4 = [], ipv6 = []\<rparr>]"
    by (simp add: normalize_bootstrap_fields nameservers_bootstrap_def nameserver_out_def
          raw_sparse_def)
  from first reg dn ns show ?thesis by simp
qed

text \<open>
  C9 (as amended): on the same raw object the two routes build the same domain name,
  handle, status list, event dates, registrar name, IANA identifier and DNSSEC data; the
  nameservers of the Verisign route are the names of the nameserver objects of the
  bootstrap route.
\<close>

theorem routes_agree_but_nameservers:
  "domain_out (normalize_verisign fmt qt data) = domain_out (normalize_bootstrap fmt qt ep data)
   \<and> handle_out (normalize_verisign fmt qt data) = handle_out (normalize_bootstrap fmt qt ep data)
   \<and> status_out (normalize_verisign fmt qt data) = status_out (normalize_bootstrap fmt qt ep data)
   \<and> events_out (normalize_verisign fmt qt data) = events_out (normalize_bootstrap fmt qt ep data)
   \<and> registrar (normalize_verisign fmt qt data) = registrar (normalize_bootstrap fmt qt ep data)
   \<and> ianaId (normalize_verisign fmt qt data) = ianaId (normalize_bootstrap fmt qt ep data)
   \<and> dnssec (normalize_verisign fmt qt data) = dnssec (normalize_bootstrap fmt qt ep data)
   \<and> nameservers_out (normalize_verisign fmt qt data)
       = map name (nameservers_out (normalize_bootstrap fmt qt ep data))"
  by (simp only: normalize_verisign_fields normalize_bootstrap_fields raw_lists_kept simp_thms)

text \<open>
  C9 as stated fails for the nameservers: for the sample object the Verisign route
  serialises an array of strings and the bootstrap route an array of objects.
\<close>

theorem routes_nameservers_counterexample:
  "nameservers_json_verisign
     (nameservers_out (normalize_verisign fmt_example 42 raw_example))
   \<noteq> nameservers_json_bootstrap
     (nameservers_out (normalize_bootstrap fmt_example 42
        ''https://rdap.example-registry.test/'' raw_example))"
  by (simp add: normalize_verisign_fields normalize_bootstrap_fields nameservers_verisign_def
        nameservers_bootstrap_def nameservers_json_verisign_def nameservers_json_bootstrap_def
        raw_example_def)

section \<open>The handlers' responses\<close>

lemma query_status: "http_status (query env d url norm) = 200"
  by (simp add: query_def split: FetchResult.splits JsonResult.splits)

lemma query_Success:
  "query env d url norm = Response st (Success r) \<Longrightarrow>
     \<exists>c data. fetch env url = FetchResponse c (JsonOk data) \<and> ok c
        \<and> r = norm (elapsed_response env) data \<and> st = 200"
  by (auto simp: query_def split: FetchResult.splits JsonResult.splits if_splits)

lemma query_Failure_time:
  "body (query env d url norm) = Failure m qt \<Longrightarrow> qt \<noteq> None"
  by (auto simp: query_def split: FetchResult.splits JsonResult.splits if_splits)

lemma GET_bootstrap_shape:
  assumes "GET_bootstrap services env cache param = (resp, calls, cache')"
  shows "(rejected_before_fetch (\<lambda>d. fst (getRdapUrl services cache d) \<noteq> None) param
            \<and> calls = [] \<and> http_status resp = 400 \<and> (\<exists>m. body resp = Failure m None))
       \<or> (\<not> rejected_before_fetch (\<lambda>d. fst (getRdapUrl services cache d) \<noteq> None) param
            \<and> (\<exists>p url ep. param = Some p \<and> calls = [url]
                  \<and> fst (getRdapUrl services cache (toLowerCase (trim p))) = Some (url, ep)
                  \<and> resp = query env (toLowerCase (trim p)) url
                       (\<lambda>qt data. normalize_bootstrap (formatDate env) qt ep data)))"
  using assms
  by (auto simp: GET_bootstrap_def rejected_before_fetch_def split: option.splits if_splits prod.splits)

lemma GET_verisign_shape:
  assumes "GET_verisign env param = (resp, calls)"
  shows "(rejected_before_fetch (\<lambda>d. getRdapUrl_verisign d \<noteq> None) param
            \<and> calls = [] \<and> http_status resp = 400 \<and> (\<exists>m. body resp = Failure m None))
       \<or> (\<not> rejected_before_fetch (\<lambda>d. getRdapUrl_verisign d \<noteq> None) param
            \<and> (\<exists>p url. param = Some p \<and> calls = [url]
                  \<and> getRdapUrl_verisign (toLowerCase (trim p)) = Some url
                  \<and> resp = query env (toLowerCase (trim p)) url
                       (\<lambda>qt data. normalize_verisign (formatDate env) qt data)))"
proof -
  have ne: "getRdapUrl_verisign d = Some u \<Longrightarrow> u \<noteq> []" for d u
    by (auto simp: getRdapUrl_verisign_def Let_def split: if_splits)
  show ?thesis
    using assms ne
    by (auto simp: GET_verisign_def rejected_before_fetch_def split: option.splits if_splits)
qed

lemma GET_bootstrap_Success:
  assumes "GET_bootstrap services env cache param = (Response st (Success r), calls, cache')"
  shows "\<exists>url ep c data. calls = [url] \<and> fetch env url = FetchResponse c (JsonOk data)
           \<and> ok c \<and> st = 200
           \<and> r = normalize_bootstrap (formatDate env) (elapsed_response env) ep data"
proof -
  from GET_bootstrap_shape [OF assms] obtain p url ep where
    c: "calls = [url]" and
    q: "Response st (Success r) = query env (toLowerCase (trim p)) url
          (\<lambda>qt data. normalize_bootstrap (formatDate env) qt ep data)"
    by auto
  from query_Success [OF q [symmetric]] obtain c data where
    f: "fetch env url = FetchResponse c (JsonOk data)" "ok c" "st = 200"
    and r: "r = normalize_bootstrap (formatDate env) (elapsed_response env) ep data"
    by blast
  with c f show ?thesis by blast
qed

lemma GET_verisign_Success:
  assumes "GET_verisign env param = (Response st (Success r), calls)"
  shows "\<exists>url c data. calls = [url] \<and> fetch env url = FetchResponse c (JsonOk data)
           \<and> ok c \<and> st = 200
           \<and> r = normalize_verisign (formatDate env) (elapsed_response env) data"
proof -
  from GET_verisign_shape [OF assms] obtain p url where
    c: "calls = [url]" and
    q: "Response st (Success r) = query env (toLowerCase (trim p)) url
          (\<lambda>qt data. normalize_verisign (formatDate env) qt data)"
    by auto
  from query_Success [OF q [symmetric]] obtain c data where
    f: "fetch env url = FetchResponse c (JsonOk data)" "ok c" "st = 200"
    and r: "r = normalize_verisign (formatDate env) (elapsed_response env) data"
    by blast
  with c f show ?thesis by blast
qed

section \<open>The handlers on the sample inputs\<close>

lemma example_domain:
  "toLowerCase (trim '' Example.COM '') = ''example.com''"
  "getTld ''example.com'' = Some ''com''"
  "label_syntax ''example.com''"
  by (simp_all add: str_eval getTld_def label_syntax_def label_ok_def alnum_def alnum_hyphen_def)

lemma example_regex: "regex_test domainRegex ''example.com''"
  by (simp only: domainRegex_label_syntax example_domain)

lemma example_url:
  "getRdapUrl services_example None ''example.com'' =
     (Some (''https://rdap.example-registry.test/domain/example.com'',
            ''https://rdap.example-registry.test/''),
      Some (build_index services_example))"
proof -
  have "cache_ok services_example None" by (simp add: cache_ok_def)
  then have l: "loadBootstrap services_example None
      = (build_index services_example, Some (build_index services_example))"
    by (rule loadBootstrap_ok)
  have b: "build_index services_example ''com'' = Some (Some ''https://rdap.example-registry.test/'')"
    by (simp add: build_index_find services_example_def pick_endpoint_def str_eval)
  show ?thesis by (simp add: getRdapUrl_def example_domain l b)
qed

lemma example_GET:
  "GET_bootstrap services_example env None (Some '' Example.COM '') =
     (query env ''example.com'' ''https://rdap.example-registry.test/domain/example.com''
        (\<lambda>qt data. normalize_bootstrap (formatDate env) qt ''https://rdap.example-registry.test/'' data),
      [''https://rdap.example-registry.test/domain/example.com''],
      Some (build_index services_example))"
  by (simp add: GET_bootstrap_def example_domain(1) example_regex example_url del: regex_test.simps)

lemma example_url_verisign:
  "getRdapUrl_verisign ''example.com'' = Some ''https://rdap.verisign.com/com/v1/domain/example.com''"
  by (simp add: getRdapUrl_verisign_def example_domain tld_text_def)

lemma example_GET_verisign:
  "GET_verisign env (Some '' Example.COM '') =
     (query env ''example.com'' ''https://rdap.verisign.com/com/v1/domain/example.com''
        (\<lambda>qt data. normalize_verisign (formatDate env) qt data),
      [''https://rdap.verisign.com/com/v1/domain/example.com''])"
  by (simp add: GET_verisign_def example_domain(1) example_regex example_url_verisign
        del: regex_test.simps)

lemma example_queries:
  "query (env_example (FetchThrows (ErrorObject ''boom''))) d url norm
     = Response 200 (Failure ''boom'' (Some 43))"
  "query (env_example (FetchResponse 200 (JsonThrows (ErrorObject ''boom'')))) d url norm
     = Response 200 (Failure ''boom'' (Some 43))"
  "query (env_example (FetchResponse 503 js)) d url norm
     = Response 200 (Failure ''RDAP lookup failed with status 503'' (Some 42))"
  "query (env_example (FetchResponse 200 (JsonOk data))) d url norm
     = Response 200 (Success (norm 42 data))"
  by (simp_all add: query_def env_example_def catch_message_def ok_def string_of_nat.simps
        char_of_def bit_iff_odd)

lemma example_query_404:
  \<open>query (env_example (FetchResponse 404 js)) ''example.com'' url norm
     = Response 200 (Failure ''Domain "example.com" not found in RDAP registry'' (Some 42))\<close>
  by (simp add: query_def env_example_def)

lemma not_a_domain:
  "toLowerCase (trim ''not a domain'') = ''not a domain''"
  "\<not> label_syntax ''not a domain''"
  by (simp_all add: str_eval label_syntax_def)

lemma not_a_domain_GET:
  "GET_bootstrap services env cache (Some ''not a domain'')
     = (Response 400 (Failure ''Invalid domain format'' None), [], cache)"
  "GET_verisign env (Some ''not a domain'')
     = (Response 400 (Failure ''Invalid domain format'' None), [])"
  by (simp_all add: GET_bootstrap_def GET_verisign_def not_a_domain domainRegex_label_syntax
        del: regex_test.simps)

lemma example_zz:
  "toLowerCase (trim ''Example.ZZ'') = ''example.zz''"
  "label_syntax ''example.zz''"
  "last (split_dot ''example.zz'') = ''zz''"
  by (simp_all add: str_eval label_syntax_def label_ok_def alnum_def alnum_hyphen_def)

section \<open>What the handlers answer\<close>

text \<open>
  C6: when the trimmed, lowercased parameter is empty or breaks the label-syntax rule, the
  bootstrap route answers 400 (\<open>Domain parameter is required\<close> for the empty string,
  \<open>Invalid domain format\<close> otherwise) and fetches nothing. When it obeys the rule and no
  snapshot entry has its last label, the route answers 400 with a message that names
  that label as the unsupported TLD, and fetches nothing.
\<close>

theorem invalid_input_rejected:
  \<open>(toLowerCase (trim p) = [] \<or> \<not> label_syntax (toLowerCase (trim p)) \<longrightarrow>
      GET_bootstrap services env cache (Some p) =
        (Response 400
           (Failure (if toLowerCase (trim p) = [] then ''Domain parameter is required''
                     else ''Invalid domain format'') None),
         [], cache))
   \<and> (label_syntax (toLowerCase (trim p)) \<and> cache_ok services cache
        \<and> (\<forall>(tlds, endpoints) \<in> set services.
              last (split_dot (toLowerCase (trim p))) \<notin> set (map toLowerCase tlds)) \<longrightarrow>
      GET_bootstrap services env cache (Some p) =
        (Response 400
           (Failure (''TLD ".'' @ last (split_dot (toLowerCase (trim p))) @
              ''" is not supported. No RDAP endpoint found in IANA bootstrap registry.'') None),
         [], Some (build_index services)))\<close>
  (is "(?bad \<longrightarrow> ?invalid) \<and> (?nohost \<longrightarrow> ?unsupported)")
proof (rule conjI)
  show "?bad \<longrightarrow> ?invalid"
  proof (rule impI)
    assume ?bad
    then have "toLowerCase (trim p) = [] \<or> \<not> regex_test domainRegex (toLowerCase (trim p))"
      by (simp only: domainRegex_label_syntax)
    then show ?invalid by (auto simp: GET_bootstrap_def simp del: regex_test.simps)
  qed
  show "?nohost \<longrightarrow> ?unsupported"
  proof (rule impI)
    let ?d = "toLowerCase (trim p)"
    let ?tld = "last (split_dot ?d)"
    assume h: ?nohost
    then have syn: "label_syntax ?d" and c: "cache_ok services cache"
      and no: "\<forall>(tlds, endpoints) \<in> set services. ?tld \<notin> set (map toLowerCase tlds)"
      by blast+
    have re: "regex_test domainRegex ?d" using syn by (simp only: domainRegex_label_syntax)
    note tld = label_syntax_tld [OF syn]
    have "build_index services ?tld = None" using no by (rule build_index_absent)
    then have url: "getRdapUrl services cache ?d = (None, Some (build_index services))"
      by (simp add: getRdapUrl_def tld loadBootstrap_ok [OF c])
    show ?unsupported
      by (simp add: GET_bootstrap_def tld re url tld_text_def del: regex_test.simps)
  qed
qed

theorem invalid_input_rejected_witness:
  \<open>GET_bootstrap services_example (env_example (FetchThrows OtherValue)) None (Some ''not a domain'') =
     (Response 400 (Failure ''Invalid domain format'' None), [], None)
   \<and> GET_bootstrap services_example (env_example (FetchThrows OtherValue)) None (Some ''Example.ZZ'') =
     (Response 400
        (Failure ''TLD ".zz" is not supported. No RDAP endpoint found in IANA bootstrap registry.''
           None),
      [], Some (build_index services_example))\<close>
proof -
  have h1: "toLowerCase (trim ''not a domain'') = [] \<or> \<not> label_syntax (toLowerCase (trim ''not a domain''))"
    by (simp only: not_a_domain) simp
  have h2: "label_syntax (toLowerCase (trim ''Example.ZZ'')) \<and> cache_ok services_example None
        \<and> (\<forall>(tlds, endpoints) \<in> set services_example.
              last (split_dot (toLowerCase (trim ''Example.ZZ''))) \<notin> set (map toLowerCase tlds))"
    by (simp only: example_zz)
       (simp add: example_zz cache_ok_def services_example_def toLowerCase_def lower_char_def)
  note t1 = invalid_input_rejected [of "''not a domain''" services_example "env_example (FetchThrows OtherValue)" None,
      THEN conjunct1, THEN mp, OF h1]
  note t2 = invalid_input_rejected [of "''Example.ZZ''" services_example "env_example (FetchThrows OtherValue)" None,
      THEN conjunct2, THEN mp, OF h2]
  from t1 t2 show ?thesis by (simp add: not_a_domain example_zz)
qed

text \<open>
  C10: for both routes, a response has HTTP status 400 exactly when the request was
  rejected before the outbound call (parameter missing or empty, invalid format, no
  endpoint for the TLD): then nothing was fetched and the body is a failure with no
  query time. Otherwise exactly one URL was fetched, the status is 200 whatever the
  outcome, and a failure body then carries the query time.
\<close>

theorem status_400_iff_rejected:
  "(GET_bootstrap services env cache param = (resp, calls, cache') \<longrightarrow>
      (http_status resp = 400 \<and> calls = [] \<and> (\<exists>m. body resp = Failure m None)
         \<and> rejected_before_fetch (\<lambda>d. fst (getRdapUrl services cache d) \<noteq> None) param)
    \<or> (http_status resp = 200 \<and> (\<exists>url. calls = [url])
         \<and> (\<forall>m qt. body resp = Failure m qt \<longrightarrow> qt \<noteq> None)
         \<and> \<not> rejected_before_fetch (\<lambda>d. fst (getRdapUrl services cache d) \<noteq> None) param))
   \<and> (GET_verisign env param = (vresp, vcalls) \<longrightarrow>
      (http_status vresp = 400 \<and> vcalls = [] \<and> (\<exists>m. body vresp = Failure m None)
         \<and> rejected_before_fetch (\<lambda>d. getRdapUrl_verisign d \<noteq> None) param)
    \<or> (http_status vresp = 200 \<and> (\<exists>url. vcalls = [url])
         \<and> (\<forall>m qt. body vresp = Failure m qt \<longrightarrow> qt \<noteq> None)
         \<and> \<not> rejected_before_fetch (\<lambda>d. getRdapUrl_verisign d \<noteq> None) param))"
proof (intro conjI impI)
  assume "GET_bootstrap services env cache param = (resp, calls, cache')"
  from GET_bootstrap_shape [OF this]
  show "(http_status resp = 400 \<and> calls = [] \<and> (\<exists>m. body resp = Failure m None)
         \<and> rejected_before_fetch (\<lambda>d. fst (getRdapUrl services cache d) \<noteq> None) param)
    \<or> (http_status resp = 200 \<and> (\<exists>url. calls = [url])
         \<and> (\<forall>m qt. body resp = Failure m qt \<longrightarrow> qt \<noteq> None)
         \<and> \<not> rejected_before_fetch (\<lambda>d. fst (getRdapUrl services cache d) \<noteq> None) param)"
    by (auto simp: query_status dest: query_Failure_time)
next
  assume "GET_verisign env param = (vresp, vcalls)"
  from GET_verisign_shape [OF this]
  show "(http_status vresp = 400 \<and> vcalls = [] \<and> (\<exists>m. body vresp = Failure m None)
         \<and> rejected_before_fetch (\<lambda>d. getRdapUrl_verisign d \<noteq> None) param)
    \<or> (http_status vresp = 200 \<and> (\<exists>url. vcalls = [url])
         \<and> (\<forall>m qt. body vresp = Failure m qt \<longrightarrow> qt \<noteq> None)
         \<and> \<not> rejected_before_fetch (\<lambda>d. getRdapUrl_verisign d \<noteq> None) param)"
    by (auto simp: query_status dest: query_Failure_time)
qed

theorem status_400_iff_rejected_witness:
  "GET_bootstrap services_example (env_example (FetchResponse 503 (JsonThrows OtherValue))) None
       (Some ''not a domain'')
     = (Response 400 (Failure ''Invalid domain format'' None), [], None)
   \<and> rejected_before_fetch (\<lambda>d. fst (getRdapUrl services_example None d) \<noteq> None)
        (Some ''not a domain'')
   \<and> GET_bootstrap services_example (env_example (FetchResponse 503 (JsonThrows OtherValue))) None
       (Some '' Example.COM '')
     = (Response 200 (Failure ''RDAP lookup failed with status 503'' (Some 42)),
        [''https://rdap.example-registry.test/domain/example.com''],
        Some (build_index services_example))
   \<and> \<not> rejected_before_fetch (\<lambda>d. fst (getRdapUrl services_example None d) \<noteq> None)
        (Some '' Example.COM '')
   \<and> GET_verisign (env_example (FetchResponse 503 (JsonThrows OtherValue))) (Some ''not a domain'')
     = (Response 400 (Failure ''Invalid domain format'' None), [])
   \<and> rejected_before_fetch (\<lambda>d. getRdapUrl_verisign d \<noteq> None) (Some ''not a domain'')
   \<and> GET_verisign (env_example (FetchResponse 503 (JsonThrows OtherValue))) (Some '' Example.COM '')
     = (Response 200 (Failure ''RDAP lookup failed with status 503'' (Some 42)),
        [''https://rdap.verisign.com/com/v1/domain/example.com''])
   \<and> \<not> rejected_before_fetch (\<lambda>d. getRdapUrl_verisign d \<noteq> None) (Some '' Example.COM '')"
proof -
  let ?env = "env_example (FetchResponse 503 (JsonThrows OtherValue))"
  let ?bad = "Response 400 (Failure ''Invalid domain format'' None)"
  let ?f503 = "Response 200 (Failure ''RDAP lookup failed with status 503'' (Some 42))"
  let ?url = "''https://rdap.example-registry.test/domain/example.com''"
  let ?vurl = "''https://rdap.verisign.com/com/v1/domain/example.com''"
  have b1: "GET_bootstrap services_example ?env None (Some ''not a domain'')
      = (?bad :: BootstrapResult Response, [], None)"
    by (rule not_a_domain_GET)
  have v1: "GET_verisign ?env (Some ''not a domain'') = (?bad :: string Result Response, [])"
    by (rule not_a_domain_GET)
  have b2: "GET_bootstrap services_example ?env None (Some '' Example.COM '')
      = (?f503, [?url], Some (build_index services_example))"
    by (simp add: example_GET example_queries)
  have v2: "GET_verisign ?env (Some '' Example.COM '') = (?f503, [?vurl])"
    by (simp add: example_GET_verisign example_queries)
  note t1 = status_400_iff_rejected [where services = services_example and env = ?env
      and cache = None and param = "Some ''not a domain''" and resp = ?bad and calls = "[]"
      and cache' = None and vresp = ?bad and vcalls = "[]"]
  note t2 = status_400_iff_rejected [where services = services_example and env = ?env
      and cache = None and param = "Some '' Example.COM ''" and resp = ?f503 and calls = "[?url]"
      and cache' = "Some (build_index services_example)" and vresp = ?f503 and vcalls = "[?vurl]"]
  have "rejected_before_fetch (\<lambda>d. fst (getRdapUrl services_example None d) \<noteq> None)
        (Some ''not a domain'')"
    using t1 [THEN conjunct1, THEN mp, OF b1] by simp
  moreover have "rejected_before_fetch (\<lambda>d. getRdapUrl_verisign d \<noteq> None) (Some ''not a domain'')"
    using t1 [THEN conjunct2, THEN mp, OF v1] by simp
  moreover have "\<not> rejected_before_fetch (\<lambda>d. fst (getRdapUrl services_example None d) \<noteq> None)
        (Some '' Example.COM '')"
    using t2 [THEN conjunct1, THEN mp, OF b2] by simp
  moreover have "\<not> rejected_before_fetch (\<lambda>d. getRdapUrl_verisign d \<noteq> None)
        (Some '' Example.COM '')"
    using t2 [THEN conjunct2, THEN mp, OF v2] by simp
  ultimately show ?thesis using b1 b2 v1 v2 by simp
qed

text \<open>
  C1 (as amended): when the bootstrap route fetched a URL, the response has status 200
  and its body is decided by the exchange: a 404 gives the not-found message, any other
  status outside 200..299 a message that ends with the status code, both with the time
  measured after the response and without any data; a rejected \<open>fetch\<close> and a rejected
  \<open>response.json()\<close> both give the thrown error's message (or \<open>RDAP lookup failed\<close>) with
  the time measured in the \<open>catch\<close> block; a 2xx body that parses to an object of the
  \<open>RdapResponse\<close> shape gives the success result. Nothing is stated about a 2xx body
  that parses to a JSON value of another shape.
\<close>

theorem query_outcomes:
  assumes "GET_bootstrap services env cache (Some p) = (resp, [url], cache')"
  shows \<open>http_status resp = 200 \<and>
    (case fetch env url of
       FetchThrows t \<Rightarrow> body resp = Failure (catch_message t) (Some (elapsed_catch env))
     | FetchResponse st js \<Rightarrow>
         if st = 404 then
           body resp = Failure (''Domain "'' @ toLowerCase (trim p) @ ''" not found in RDAP registry'')
                         (Some (elapsed_response env))
         else if \<not> ok st then
           body resp = Failure (''RDAP lookup failed with status '' @ string_of_nat st)
                         (Some (elapsed_response env))
         else
           (case js of
              JsonThrows t \<Rightarrow> body resp = Failure (catch_message t) (Some (elapsed_catch env))
            | JsonOk data \<Rightarrow>
                \<exists>ep. body resp =
                  Success (normalize_bootstrap (formatDate env) (elapsed_response env) ep data)))\<close>
proof -
  from GET_bootstrap_shape [OF assms]
  obtain ep where r: "resp = query env (toLowerCase (trim p)) url
                       (\<lambda>qt data. normalize_bootstrap (formatDate env) qt ep data)"
    by auto
  show ?thesis
    unfolding r
    by (auto simp: query_def split: FetchResult.splits JsonResult.splits)
qed

theorem query_outcomes_witness:
  \<open>GET_bootstrap services_example (env_example (FetchResponse 404 (JsonThrows OtherValue))) None
       (Some '' Example.COM '') =
     (Response 200 (Failure ''Domain "example.com" not found in RDAP registry'' (Some 42)),
      [''https://rdap.example-registry.test/domain/example.com''],
      Some (build_index services_example))
   \<and> GET_bootstrap services_example (env_example (FetchResponse 503 (JsonThrows OtherValue))) None
       (Some '' Example.COM '') =
     (Response 200 (Failure ''RDAP lookup failed with status 503'' (Some 42)),
      [''https://rdap.example-registry.test/domain/example.com''],
      Some (build_index services_example))\<close>
proof -
  let ?url = "''https://rdap.example-registry.test/domain/example.com''"
  let ?e404 = "env_example (FetchResponse 404 (JsonThrows OtherValue))"
  let ?e503 = "env_example (FetchResponse 503 (JsonThrows OtherValue))"
  obtain r1 where h1: "GET_bootstrap services_example ?e404 None (Some '' Example.COM '')
      = (r1, [?url], Some (build_index services_example))"
    by (simp add: example_GET)
  obtain r2 where h2: "GET_bootstrap services_example ?e503 None (Some '' Example.COM '')
      = (r2, [?url], Some (build_index services_example))"
    by (simp add: example_GET)
  have f: "fetch ?e404 ?url = FetchResponse 404 (JsonThrows OtherValue)"
    "fetch ?e503 ?url = FetchResponse 503 (JsonThrows OtherValue)"
    "elapsed_response ?e404 = 42" "elapsed_response ?e503 = 42"
    by (simp_all add: env_example_def)
  from query_outcomes [OF h1]
  have \<open>http_status r1 = 200 \<and>
      body r1 = Failure (''Domain "'' @ toLowerCase (trim '' Example.COM '') @
                  ''" not found in RDAP registry'') (Some 42)\<close>
    by (simp add: f)
  then have r1: \<open>r1 = Response 200 (Failure ''Domain "example.com" not found in RDAP registry'' (Some 42))\<close>
    by (cases r1) (simp add: example_domain)
  from query_outcomes [OF h2]
  have "http_status r2 = 200 \<and>
      body r2 = Failure (''RDAP lookup failed with status '' @ string_of_nat 503) (Some 42)"
    by (simp add: f ok_def)
  then have r2: "r2 = Response 200 (Failure ''RDAP lookup failed with status 503'' (Some 42))"
    by (cases r2) (simp add: string_of_nat.simps char_of_def bit_iff_odd)
  from h1 h2 show ?thesis unfolding r1 r2 by simp
qed

text \<open>
  C1 as stated fails: a \<open>fetch\<close> that rejects with an error and a 200 response whose
  \<open>json()\<close> rejects with an error of the same message get the same response from the
  handler, so no kind tells a parse failure from a transport failure.
\<close>

theorem parse_failure_as_transport_failure_counterexample:
  "fst (GET_bootstrap services_example (env_example (FetchThrows (ErrorObject ''boom''))) None
          (Some '' Example.COM ''))
     = Response 200 (Failure ''boom'' (Some 43))
   \<and> fst (GET_bootstrap services_example
            (env_example (FetchResponse 200 (JsonThrows (ErrorObject ''boom'')))) None
            (Some '' Example.COM ''))
     = Response 200 (Failure ''boom'' (Some 43))"
  by (simp add: example_GET example_queries)

text \<open>
  C7: whenever a route answers with a success result, the result's status list is the raw
  object's status list as it is (empty when the raw object has none), its DS records are
  the raw \<open>secureDNS.dsData\<close> list as it is (empty when absent), and its nameservers are
  the raw nameservers in the same number and order (the names, for the bootstrap route;
  the list of names itself, for the Verisign route); the raw object kept on the result is
  the very object that \<open>response.json()\<close> produced for the fetched URL.
\<close>

theorem raw_lists_preserved:
  "(GET_bootstrap services env cache param = (Response st (Success r), calls, cache') \<longrightarrow>
      status_out r = (case status (rawResponse r) of None \<Rightarrow> [] | Some s \<Rightarrow> s)
    \<and> dsData_out (dnssec r) =
        (case secureDNS (rawResponse r) of
           None \<Rightarrow> []
         | Some sd \<Rightarrow> (case dsData sd of None \<Rightarrow> [] | Some ds \<Rightarrow> ds))
    \<and> map name (nameservers_out r) =
        (case nameservers (rawResponse r) of None \<Rightarrow> [] | Some nss \<Rightarrow> map ns_ldhName nss)
    \<and> (\<exists>url c. calls = [url] \<and> fetch env url = FetchResponse c (JsonOk (rawResponse r))))
   \<and> (GET_verisign env param = (Response vst (Success vr), vcalls) \<longrightarrow>
      status_out vr = (case status (rawResponse vr) of None \<Rightarrow> [] | Some s \<Rightarrow> s)
    \<and> dsData_out (dnssec vr) =
        (case secureDNS (rawResponse vr) of
           None \<Rightarrow> []
         | Some sd \<Rightarrow> (case dsData sd of None \<Rightarrow> [] | Some ds \<Rightarrow> ds))
    \<and> nameservers_out vr =
        (case nameservers (rawResponse vr) of None \<Rightarrow> [] | Some nss \<Rightarrow> map ns_ldhName nss)
    \<and> (\<exists>url c. vcalls = [url] \<and> fetch env url = FetchResponse c (JsonOk (rawResponse vr))))"
  (is "(?B \<longrightarrow> ?BR) \<and> (?V \<longrightarrow> ?VR)")
proof (rule conjI)
  show "?B \<longrightarrow> ?BR"
  proof (rule impI)
    assume ?B
    from GET_bootstrap_Success [OF this] obtain url ep c data where
      c: "calls = [url]" "fetch env url = FetchResponse c (JsonOk data)"
      and r: "r = normalize_bootstrap (formatDate env) (elapsed_response env) ep data"
      by blast
    have raw: "rawResponse r = data" unfolding r by (simp only: normalize_bootstrap_fields)
    have "\<exists>url c. calls = [url] \<and> fetch env url = FetchResponse c (JsonOk (rawResponse r))"
      using c raw by simp
    moreover have "status_out r = status_of data" "dnssec r = dnssec_of data"
      "nameservers_out r = nameservers_bootstrap data"
      unfolding r by (simp_all only: normalize_bootstrap_fields)
    ultimately show ?BR by (simp only: raw raw_lists_kept simp_thms)
  qed
  show "?V \<longrightarrow> ?VR"
  proof (rule impI)
    assume ?V
    from GET_verisign_Success [OF this] obtain url c data where
      c: "vcalls = [url]" "fetch env url = FetchResponse c (JsonOk data)"
      and r: "vr = normalize_verisign (formatDate env) (elapsed_response env) data"
      by blast
    have raw: "rawResponse vr = data" unfolding r by (simp only: normalize_verisign_fields)
    have "\<exists>url c. vcalls = [url] \<and> fetch env url = FetchResponse c (JsonOk (rawResponse vr))"
      using c raw by simp
    moreover have "status_out vr = status_of data" "dnssec vr = dnssec_of data"
      "nameservers_out vr = nameservers_verisign data"
      unfolding r by (simp_all only: normalize_verisign_fields)
    ultimately show ?VR by (simp only: raw raw_lists_kept simp_thms)
  qed
qed

theorem raw_lists_preserved_witness:
  "GET_bootstrap services_example (env_example (FetchResponse 200 (JsonOk raw_example))) None
       (Some '' Example.COM '')
     = (Response 200 (Success (normalize_bootstrap fmt_example 42
          ''https://rdap.example-registry.test/'' raw_example)),
        [''https://rdap.example-registry.test/domain/example.com''],
        Some (build_index services_example))
   \<and> status_out (normalize_bootstrap fmt_example 42 ''https://rdap.example-registry.test/''
        raw_example) = [''client transfer prohibited'', ''active'']
   \<and> dsData_out (dnssec (normalize_bootstrap fmt_example 42
        ''https://rdap.example-registry.test/'' raw_example))
       = [\<lparr>keyTag = 370, algorithm = 13, digestType = 2,
           digest = ''be74359954660069d5c63d200c39f5603827d7dd''\<rparr>]
   \<and> map name (nameservers_out (normalize_bootstrap fmt_example 42
        ''https://rdap.example-registry.test/'' raw_example))
       = [''A.IANA-SERVERS.NET'', ''B.IANA-SERVERS.NET'']
   \<and> GET_verisign (env_example (FetchResponse 200 (JsonOk raw_example))) (Some '' Example.COM '')
     = (Response 200 (Success (normalize_verisign fmt_example 42 raw_example)),
        [''https://rdap.verisign.com/com/v1/domain/example.com''])
   \<and> nameservers_out (normalize_verisign fmt_example 42 raw_example)
       = [''A.IANA-SERVERS.NET'', ''B.IANA-SERVERS.NET'']"
proof -
  let ?env = "env_example (FetchResponse 200 (JsonOk raw_example))"
  let ?r = "normalize_bootstrap fmt_example 42 ''https://rdap.example-registry.test/'' raw_example"
  let ?vr = "normalize_verisign fmt_example 42 raw_example"
  have f: "formatDate ?env = fmt_example" by (simp add: env_example_def)
  have h: "GET_bootstrap services_example ?env None (Some '' Example.COM '')
     = (Response 200 (Success ?r),
        [''https://rdap.example-registry.test/domain/example.com''],
        Some (build_index services_example))"
    by (simp add: example_GET example_queries f)
  have v: "GET_verisign ?env (Some '' Example.COM '')
     = (Response 200 (Success ?vr), [''https://rdap.verisign.com/com/v1/domain/example.com''])"
    by (simp add: example_GET_verisign example_queries f)
  have raw: "rawResponse ?r = raw_example" "rawResponse ?vr = raw_example"
    by (simp_all add: normalize_bootstrap_fields normalize_verisign_fields)
  have ex: "status raw_example = Some [''client transfer prohibited'', ''active'']"
    "secureDNS raw_example = Some \<lparr>delegationSigned = Some True,
        dsData = Some [\<lparr>keyTag = 370, algorithm = 13, digestType = 2,
                        digest = ''be74359954660069d5c63d200c39f5603827d7dd''\<rparr>]\<rparr>"
    "nameservers raw_example =
        Some [\<lparr>ns_ldhName = ''A.IANA-SERVERS.NET'', objectClassName = ''nameserver'',
                ipAddresses = Some \<lparr>v4 = Some [''199.43.135.53''], v6 = None\<rparr>\<rparr>,
              \<lparr>ns_ldhName = ''B.IANA-SERVERS.NET'', objectClassName = ''nameserver'',
                ipAddresses = None\<rparr>]"
    by (simp_all add: raw_example_def)
  note t = raw_lists_preserved [where services = services_example and env = ?env
      and cache = None and param = "Some '' Example.COM ''" and st = 200 and r = ?r
      and calls = "[''https://rdap.example-registry.test/domain/example.com'']"
      and cache' = "Some (build_index services_example)" and vst = 200 and vr = ?vr
      and vcalls = "[''https://rdap.verisign.com/com/v1/domain/example.com'']"]
  note b = t [THEN conjunct1, THEN mp, OF h]
  note w = t [THEN conjunct2, THEN mp, OF v]
  have "status_out ?r = [''client transfer prohibited'', ''active'']"
    using b [THEN conjunct1] unfolding raw by (simp add: ex)
  moreover have "dsData_out (dnssec ?r) = [\<lparr>keyTag = 370, algorithm = 13, digestType = 2,
           digest = ''be74359954660069d5c63d200c39f5603827d7dd''\<rparr>]"
    using b [THEN conjunct2, THEN conjunct1] unfolding raw by (simp add: ex)
  moreover have "map name (nameservers_out ?r) = [''A.IANA-SERVERS.NET'', ''B.IANA-SERVERS.NET'']"
    using b [THEN conjunct2, THEN conjunct2, THEN conjunct1] unfolding raw by (simp add: ex)
  moreover have "nameservers_out ?vr = [''A.IANA-SERVERS.NET'', ''B.IANA-SERVERS.NET'']"
    using w [THEN conjunct2, THEN conjunct2, THEN conjunct1] unfolding raw by (simp add: ex)
  ultimately show ?thesis using h v by simp
qed

end
